theory Spec2Isabelle
  imports Complex_Main "HOL-Library.Log_Nat"
begin

section \<open>GeoJson2Rhino: GeoJSON features to objects of a host document\<close>

text \<open>
  The module \<^verbatim>\<open>GeoJson2Rhino.py\<close> walks a decoded GeoJSON value, converts the
  coordinates of every feature to host geometry and adds it to the host document.
  Python values are dynamically typed, so the decoded JSON is one datatype, every
  subscript, iteration and call that can raise returns \<open>error + 'a\<close> (\<open>Inl\<close> the
  exception), and the host document is passed through the functions that change it.
\<close>

subsection \<open>Decoded JSON values and the Python operations on them\<close>

text \<open>
  What \<^verbatim>\<open>json.loads\<close> returns. A dict is the list of its entries in iteration
  order, with distinct keys; Python's \<^verbatim>\<open>None\<close> is \<open>JNull\<close>. The module does no
  arithmetic on numbers, so a float is modelled by the real number it denotes.
\<close>

datatype json =
    JNull
  | JBool bool
  | JInt int
  | JFloat real
  | JStr string
  | JArr "json list"
  | JObj "(string \<times> json) list"

datatype error =
    KeyError json
  | IndexError
  | TypeError
  | ValueError
  | UnboundLocalError

text \<open>
  \<^verbatim>\<open>xs[i]\<close> on a sequence of length n: the indices -n .. n-1 are in range, and a
  negative one counts from the end.
\<close>

definition seq_index :: "'a list \<Rightarrow> int \<Rightarrow> error + 'a" where
  "seq_index xs i =
     (if i < - int (length xs) \<or> int (length xs) \<le> i then Inl IndexError
      else if i < 0 then Inr (xs ! nat (int (length xs) + i))
      else Inr (xs ! nat i))"

text \<open>
  \<^verbatim>\<open>obj[key]\<close>. A dict raises KeyError on a missing key and TypeError on an
  unhashable one; a list or a string takes an integer (a bool is an integer).
\<close>

fun getitem :: "json \<Rightarrow> json \<Rightarrow> error + json" where
  "getitem (JObj kvs) (JStr k) =
     (case map_of kvs k of None \<Rightarrow> Inl (KeyError (JStr k)) | Some v \<Rightarrow> Inr v)"
| "getitem (JObj kvs) (JArr ks) = Inl TypeError"
| "getitem (JObj kvs) (JObj ks) = Inl TypeError"
| "getitem (JObj kvs) k = Inl (KeyError k)"
| "getitem (JArr xs) (JInt i) = seq_index xs i"
| "getitem (JArr xs) (JBool b) = seq_index xs (if b then 1 else 0)"
| "getitem (JArr xs) k = Inl TypeError"
| "getitem (JStr s) (JInt i) = seq_index (map (\<lambda>c. JStr [c]) s) i"
| "getitem (JStr s) (JBool b) = seq_index (map (\<lambda>c. JStr [c]) s) (if b then 1 else 0)"
| "getitem obj k = Inl TypeError"

text \<open>\<^verbatim>\<open>for x in obj\<close>: the keys of a dict, the elements of a list, the characters of a string.\<close>

fun py_iter :: "json \<Rightarrow> error + json list" where
  "py_iter (JObj kvs) = Inr (map (\<lambda>kv. JStr (fst kv)) kvs)"
| "py_iter (JArr xs) = Inr xs"
| "py_iter (JStr s) = Inr (map (\<lambda>c. JStr [c]) s)"
| "py_iter obj = Inl TypeError"

text \<open>\<^verbatim>\<open>if obj:\<close>\<close>

fun truthy :: "json \<Rightarrow> bool" where
  "truthy JNull = False"
| "truthy (JBool b) = b"
| "truthy (JInt i) = (i \<noteq> 0)"
| "truthy (JFloat r) = (r \<noteq> 0)"
| "truthy (JStr s) = (s \<noteq> [])"
| "truthy (JArr xs) = (xs \<noteq> [])"
| "truthy (JObj kvs) = (kvs \<noteq> [])"

text \<open>Sequencing: an exception ends the computation; the document keeps the changes made so far.\<close>

definition try_pure :: "error + 'a \<Rightarrow> ('a \<Rightarrow> error + 'b) \<Rightarrow> error + 'b" where
  "try_pure r k = (case r of Inl e \<Rightarrow> Inl e | Inr x \<Rightarrow> k x)"

text \<open>\<^verbatim>\<open>acc = []; for x in xs: acc.append(f(x))\<close> with a pure \<open>f\<close>.\<close>

fun for_append :: "('a \<Rightarrow> error + 'b) \<Rightarrow> 'a list \<Rightarrow> 'b list \<Rightarrow> error + 'b list" where
  "for_append f [] acc = Inr acc"
| "for_append f (x # xs) acc =
     (case f x of Inl e \<Rightarrow> Inl e | Inr y \<Rightarrow> for_append f xs (acc @ [y]))"

subsection \<open>The host document\<close>

text \<open>
  The host application (its layer table, its object table, its geometry types and its
  colour type) is not part of the module. It is modelled from the surface the module
  uses: a layer table searched by name and extended at the end, an object table that
  hands out a fresh identifier for every object added, and attribute sets with a layer
  index and string tags. The host operations are total on arguments of the right type:
  what the host does with a degenerate curve or an invalid layer name is the host's.
\<close>

datatype Color = Black | FromArgb nat nat nat nat

record Layer =
  Name :: string
  Color :: Color

datatype Point3d = Point3d (X: real) (Y: real) (Z: real)

datatype Curve = ControlPointCurve (points: "Point3d list") (degree: nat)

text \<open>The values the converters hand to the add operations.\<close>

datatype rhino =
    RhPoint Point3d
  | RhCurve Curve
  | RhList "rhino list"
  | RhNone

text \<open>
  \<open>LayerIndex = None\<close>: the module never assigned the field and the host's default
  applies.
\<close>

record ObjectAttributes =
  LayerIndex :: "int option"
  UserStrings :: "string \<rightharpoonup> string"

record RhinoObject =
  Id :: nat
  Geometry :: rhino
  Attributes :: ObjectAttributes

record doc =
  Layers :: "Layer list"
  Objects :: "RhinoObject list"

text \<open>What an add operation returns: one identifier, or a list.\<close>

datatype result = Guid nat | GuidList "result list"

definition new_attributes :: ObjectAttributes where
  "new_attributes = \<lparr>LayerIndex = None, UserStrings = Map.empty\<rparr>"

text \<open>\<^verbatim>\<open>doc.Layers.Find(name, True)\<close>: the index of the layer of that name, or -1.\<close>

fun Layers_Find :: "Layer list \<Rightarrow> string \<Rightarrow> int" where
  "Layers_Find [] n = -1"
| "Layers_Find (l # ls) n =
     (if Name l = n then 0
      else (let i = Layers_Find ls n in if i = -1 then -1 else i + 1))"

text \<open>\<^verbatim>\<open>doc.Layers.Add(name, color)\<close>: appends a layer and returns its index.\<close>

definition Layers_Add :: "string \<Rightarrow> Color \<Rightarrow> doc \<Rightarrow> int \<times> doc" where
  "Layers_Add n c d =
     (int (length (Layers d)), d\<lparr>Layers := Layers d @ [\<lparr>Name = n, Color = c\<rparr>]\<rparr>)"

text \<open>\<^verbatim>\<open>att.SetUserString(key, value)\<close>: the key has to be text.\<close>

fun SetUserString :: "json \<Rightarrow> string \<Rightarrow> ObjectAttributes \<Rightarrow> error + ObjectAttributes" where
  "SetUserString (JStr k) v att = Inr (att\<lparr>UserStrings := (UserStrings att)(k \<mapsto> v)\<rparr>)"
| "SetUserString key v att = Inl TypeError"

text \<open>The object table: a new object gets the next identifier and a copy of the attributes.\<close>

definition add_object :: "rhino \<Rightarrow> ObjectAttributes \<Rightarrow> doc \<Rightarrow> nat \<times> doc" where
  "add_object g att d =
     (length (Objects d),
      d\<lparr>Objects := Objects d @ [\<lparr>Id = length (Objects d), Geometry = g, Attributes = att\<rparr>]\<rparr>)"

fun add_objects :: "rhino list \<Rightarrow> ObjectAttributes \<Rightarrow> doc \<Rightarrow> nat list \<times> doc" where
  "add_objects [] att d = ([], d)"
| "add_objects (g # gs) att d =
     (case add_object g att d of (i, d') \<Rightarrow>
        (case add_objects gs att d' of (is, d'') \<Rightarrow> (i # is, d'')))"

fun is_point :: "rhino \<Rightarrow> bool" where
  "is_point (RhPoint p) = True"
| "is_point g = False"

fun the_point :: "rhino \<Rightarrow> Point3d" where
  "the_point (RhPoint p) = p"
| "the_point g = Point3d 0 0 0"

text \<open>\<^verbatim>\<open>doc.Objects.AddPoint\<close>, \<^verbatim>\<open>AddPoints\<close>, \<^verbatim>\<open>AddCurve\<close>: an argument of another type is rejected.\<close>

fun Objects_AddPoint :: "rhino \<Rightarrow> ObjectAttributes \<Rightarrow> doc \<Rightarrow> (error + result) \<times> doc" where
  "Objects_AddPoint (RhPoint p) att d =
     (case add_object (RhPoint p) att d of (i, d') \<Rightarrow> (Inr (Guid i), d'))"
| "Objects_AddPoint g att d = (Inl TypeError, d)"

fun Objects_AddPoints :: "rhino \<Rightarrow> ObjectAttributes \<Rightarrow> doc \<Rightarrow> (error + result) \<times> doc" where
  "Objects_AddPoints (RhList ps) att d =
     (if list_all is_point ps
      then (case add_objects ps att d of (is, d') \<Rightarrow> (Inr (GuidList (map Guid is)), d'))
      else (Inl TypeError, d))"
| "Objects_AddPoints g att d = (Inl TypeError, d)"

fun Objects_AddCurve :: "rhino \<Rightarrow> ObjectAttributes \<Rightarrow> doc \<Rightarrow> (error + result) \<times> doc" where
  "Objects_AddCurve (RhCurve c) att d =
     (case add_object (RhCurve c) att d of (i, d') \<Rightarrow> (Inr (Guid i), d'))"
| "Objects_AddCurve g att d = (Inl TypeError, d)"

text \<open>
  \<^verbatim>\<open>Point3d(x, y, z)\<close> takes numbers and holds doubles. A float is passed as it
  is. An integer is converted: one of magnitude up to \<open>2 ^ 53\<close> is held exactly, a
  larger one is rounded to 53 significant bits, to the nearest and on a tie to the even
  one. The exponent range of a double is not modelled.
\<close>

definition int_to_double :: "int \<Rightarrow> real" where
  "int_to_double i =
     (if \<bar>i\<bar> \<le> 2 ^ 53 then real_of_int i
      else (let e = nat (bitlen \<bar>i\<bar>) - 53;
                q = \<bar>i\<bar> div 2 ^ e;
                r = \<bar>i\<bar> mod 2 ^ e;
                q' = (if 2 ^ (e - 1) < r \<or> (r = 2 ^ (e - 1) \<and> odd q) then q + 1 else q)
            in real_of_int (sgn i * q' * 2 ^ e)))"

fun as_double :: "json \<Rightarrow> error + real" where
  "as_double (JFloat r) = Inr r"
| "as_double (JInt i) = Inr (int_to_double i)"
| "as_double v = Inl TypeError"

definition new_Point3d :: "json \<Rightarrow> json \<Rightarrow> real \<Rightarrow> error + rhino" where
  "new_Point3d x y z =
     try_pure (as_double x) (\<lambda>x'. try_pure (as_double y) (\<lambda>y'. Inr (RhPoint (Point3d x' y' z))))"

text \<open>\<^verbatim>\<open>Curve.CreateControlPointCurve(points, degree)\<close> takes a list of points.\<close>

fun CreateControlPointCurve :: "rhino \<Rightarrow> nat \<Rightarrow> error + rhino" where
  "CreateControlPointCurve (RhList ps) deg =
     (if list_all is_point ps then Inr (RhCurve (ControlPointCurve (map the_point ps) deg))
      else Inl TypeError)"
| "CreateControlPointCurve g deg = Inl TypeError"

subsection \<open>Commands on the document\<close>

text \<open>
  A function that changes the document takes it and returns it with what it computed.
  When an exception is raised the document keeps every change made before.
\<close>

type_synonym 'a cmd = "doc \<Rightarrow> (error + 'a) \<times> doc"

definition ret :: "'a \<Rightarrow> 'a cmd" where
  "ret x d = (Inr x, d)"

definition try_val :: "error + 'a \<Rightarrow> ('a \<Rightarrow> 'b cmd) \<Rightarrow> 'b cmd" where
  "try_val r k d = (case r of Inl e \<Rightarrow> (Inl e, d) | Inr x \<Rightarrow> k x d)"

definition try_cmd :: "'a cmd \<Rightarrow> ('a \<Rightarrow> 'b cmd) \<Rightarrow> 'b cmd" where
  "try_cmd m k d = (case m d of (Inl e, d') \<Rightarrow> (Inl e, d') | (Inr x, d') \<Rightarrow> k x d')"

text \<open>\<^verbatim>\<open>acc = []; for x in xs: acc.append(f(x))\<close> where \<open>f\<close> changes the document.\<close>

fun for_append_cmd :: "('a \<Rightarrow> 'b cmd) \<Rightarrow> 'a list \<Rightarrow> 'b list \<Rightarrow> ('b list) cmd" where
  "for_append_cmd f [] acc d = (Inr acc, d)"
| "for_append_cmd f (x # xs) acc d =
     (case f x d of
        (Inl e, d') \<Rightarrow> (Inl e, d')
      | (Inr y, d') \<Rightarrow> for_append_cmd f xs (acc @ [y]) d')"

subsection \<open>Layers\<close>

text \<open>
  \<^verbatim>\<open>addRhinoLayer(layerName, layerColor)\<close>: the index of the layer of that name,
  added when the name is not found, recoloured when it is found with another colour.
\<close>

definition addRhinoLayer :: "string \<Rightarrow> Color \<Rightarrow> doc \<Rightarrow> int \<times> doc" where
  "addRhinoLayer layerName layerColor d =
     (let layerIndex = Layers_Find (Layers d) layerName in
      if layerIndex = -1 then Layers_Add layerName layerColor d
      else (let layer = Layers d ! nat layerIndex in
            if Color layer \<noteq> layerColor
            then (layerIndex,
                  d\<lparr>Layers := (Layers d)[nat layerIndex := layer\<lparr>Color := layerColor\<rparr>]\<rparr>)
            else (layerIndex, d)))"

subsection \<open>Converters: coordinates to host geometry\<close>

definition PointToRhinoPoint :: "json \<Rightarrow> error + rhino" where
  "PointToRhinoPoint coordinates =
     try_pure (getitem coordinates (JInt 0)) (\<lambda>x.
     try_pure (getitem coordinates (JInt 1)) (\<lambda>y.
     new_Point3d x y 0))"

definition MultiPointToRhinoPoint :: "json \<Rightarrow> error + rhino" where
  "MultiPointToRhinoPoint coordinates =
     try_pure (py_iter coordinates) (\<lambda>pairs.
     try_pure (for_append PointToRhinoPoint pairs []) (\<lambda>rhPointList.
     Inr (RhList rhPointList)))"

definition LineStringToRhinoCurve :: "json \<Rightarrow> error + rhino" where
  "LineStringToRhinoCurve coordinates =
     try_pure (MultiPointToRhinoPoint coordinates) (\<lambda>rhPoints.
     CreateControlPointCurve rhPoints 1)"

definition MultiLineStringToRhinoCurve :: "json \<Rightarrow> error + rhino" where
  "MultiLineStringToRhinoCurve coordinates =
     try_pure (py_iter coordinates) (\<lambda>lineStrings.
     try_pure (for_append LineStringToRhinoCurve lineStrings []) (\<lambda>rhCurveList.
     Inr (RhList rhCurveList)))"

definition PolygonToRhinoCurve :: "json \<Rightarrow> error + rhino" where
  "PolygonToRhinoCurve coordinates =
     try_pure (py_iter coordinates) (\<lambda>rings.
     try_pure (for_append LineStringToRhinoCurve rings []) (\<lambda>ringList.
     Inr (RhList ringList)))"

definition MultiPolygonToRhinoCurve :: "json \<Rightarrow> error + rhino" where
  "MultiPolygonToRhinoCurve coordinates =
     try_pure (py_iter coordinates) (\<lambda>polygons.
     try_pure (for_append PolygonToRhinoCurve polygons []) (\<lambda>polygonList.
     Inr (RhList polygonList)))"

text \<open>The body is \<^verbatim>\<open>pass\<close>: the call returns \<^verbatim>\<open>None\<close>.\<close>

definition GeometryCollectionToParser :: "json \<Rightarrow> error + rhino" where
  "GeometryCollectionToParser geometries = Inr RhNone"

subsection \<open>Add operations\<close>

text \<open>\<^verbatim>\<open>for x in v\<close> on a converted value, and on a returned result (\<^verbatim>\<open>extend\<close>).\<close>

fun rhino_iter :: "rhino \<Rightarrow> error + rhino list" where
  "rhino_iter (RhList xs) = Inr xs"
| "rhino_iter g = Inl TypeError"

fun result_iter :: "result \<Rightarrow> error + result list" where
  "result_iter (GuidList gs) = Inr gs"
| "result_iter g = Inl TypeError"

definition addPoint :: "rhino \<Rightarrow> ObjectAttributes \<Rightarrow> result cmd" where
  "addPoint rhPoint objAtt = Objects_AddPoint rhPoint objAtt"

definition addPoints :: "rhino \<Rightarrow> ObjectAttributes \<Rightarrow> result cmd" where
  "addPoints rhPoints objAtt = Objects_AddPoints rhPoints objAtt"

definition addCurve :: "rhino \<Rightarrow> ObjectAttributes \<Rightarrow> result cmd" where
  "addCurve rhCurve objAtt = Objects_AddCurve rhCurve objAtt"

definition addCurves :: "rhino \<Rightarrow> ObjectAttributes \<Rightarrow> result cmd" where
  "addCurves rhCurves objAtt =
     try_val (rhino_iter rhCurves) (\<lambda>curves.
     try_cmd (for_append_cmd (\<lambda>curve. addCurve curve objAtt) curves []) (\<lambda>guidList.
     ret (GuidList guidList)))"

definition addPolygon :: "rhino \<Rightarrow> ObjectAttributes \<Rightarrow> result cmd" where
  "addPolygon ringList objAtt = addCurves ringList objAtt"

text \<open>The loop of \<^verbatim>\<open>addPolygons\<close> extends the list where the other loops append to it.\<close>

fun addPolygons_loop :: "rhino list \<Rightarrow> ObjectAttributes \<Rightarrow> result list \<Rightarrow> (result list) cmd" where
  "addPolygons_loop [] objAtt guidList d = (Inr guidList, d)"
| "addPolygons_loop (polygon # rest) objAtt guidList d =
     (case addPolygon polygon objAtt d of
        (Inl e, d') \<Rightarrow> (Inl e, d')
      | (Inr r, d') \<Rightarrow>
          (case result_iter r of
             Inl e \<Rightarrow> (Inl e, d')
           | Inr gs \<Rightarrow> addPolygons_loop rest objAtt (guidList @ gs) d'))"

definition addPolygons :: "rhino \<Rightarrow> ObjectAttributes \<Rightarrow> result cmd" where
  "addPolygons polygonList objAtt =
     try_val (rhino_iter polygonList) (\<lambda>polygons.
     try_cmd (addPolygons_loop polygons objAtt []) (\<lambda>guidList.
     ret (GuidList guidList)))"

subsection \<open>The converter table\<close>

text \<open>
  Six entries are a pair (converter, add operation). The entry of
  \<^verbatim>\<open>'GeometryCollection'\<close> is written \<^verbatim>\<open>(GeometryCollectionToParser)\<close>, which
  is the function itself and not a tuple.
\<close>

datatype entry =
    Tuple "json \<Rightarrow> error + rhino" "rhino \<Rightarrow> ObjectAttributes \<Rightarrow> result cmd"
  | Function "json \<Rightarrow> error + rhino"

definition geoJsonGeometryMap :: "(string \<times> entry) list" where
  "geoJsonGeometryMap =
     [(''Point'', Tuple PointToRhinoPoint addPoint),
      (''MultiPoint'', Tuple MultiPointToRhinoPoint addPoints),
      (''LineString'', Tuple LineStringToRhinoCurve addCurve),
      (''MultiLineString'', Tuple MultiLineStringToRhinoCurve addCurves),
      (''Polygon'', Tuple PolygonToRhinoCurve addPolygon),
      (''MultiPolygon'', Tuple MultiPolygonToRhinoCurve addPolygons),
      (''GeometryCollection'', Function GeometryCollectionToParser)]"

text \<open>\<^verbatim>\<open>geoJsonGeometryMap[geomType]\<close>, then \<^verbatim>\<open>[0]\<close> and \<^verbatim>\<open>[1]\<close> (a function has no items).\<close>

fun table_getitem :: "(string \<times> entry) list \<Rightarrow> json \<Rightarrow> error + entry" where
  "table_getitem tab (JStr k) =
     (case map_of tab k of None \<Rightarrow> Inl (KeyError (JStr k)) | Some v \<Rightarrow> Inr v)"
| "table_getitem tab (JArr ks) = Inl TypeError"
| "table_getitem tab (JObj ks) = Inl TypeError"
| "table_getitem tab k = Inl (KeyError k)"

fun entry_0 :: "entry \<Rightarrow> error + (json \<Rightarrow> error + rhino)" where
  "entry_0 (Tuple conv add) = Inr conv"
| "entry_0 (Function f) = Inl TypeError"

fun entry_1 :: "entry \<Rightarrow> error + (rhino \<Rightarrow> ObjectAttributes \<Rightarrow> result cmd)" where
  "entry_1 (Tuple conv add) = Inr add"
| "entry_1 (Function f) = Inl TypeError"

subsection \<open>Processing a feature collection\<close>

text \<open>
  \<open>str\<close> is Python's builtin of that name on decoded JSON values; it is a parameter.
  The destination layer is \<open>JNull\<close> for \<^verbatim>\<open>None\<close>; the layer table takes a text name.
\<close>

definition set_layer :: "json \<Rightarrow> Color \<Rightarrow> ObjectAttributes \<Rightarrow> ObjectAttributes cmd" where
  "set_layer destinationLayer destinationLayerColor att d =
     (if destinationLayer \<noteq> JNull then
        (case destinationLayer of
           JStr layerName \<Rightarrow>
             (case addRhinoLayer layerName destinationLayerColor d of
                (i, d') \<Rightarrow> (Inr (att\<lparr>LayerIndex := Some i\<rparr>), d'))
         | _ \<Rightarrow> (Inl TypeError, d))
      else (Inr att, d))"

text \<open>\<^verbatim>\<open>for key in properties: att.SetUserString(key, str(properties[key]))\<close>\<close>

fun set_user_strings ::
  "(json \<Rightarrow> string) \<Rightarrow> json \<Rightarrow> json list \<Rightarrow> ObjectAttributes \<Rightarrow> error + ObjectAttributes" where
  "set_user_strings str properties [] att = Inr att"
| "set_user_strings str properties (key # keys) att =
     (case getitem properties key of
        Inl e \<Rightarrow> Inl e
      | Inr v \<Rightarrow>
          (case SetUserString key (str v) att of
             Inl e \<Rightarrow> Inl e
           | Inr att' \<Rightarrow> set_user_strings str properties keys att'))"

text \<open>The block \<^verbatim>\<open>if jsonFeature['properties']: ...\<close>: a falsy entry is skipped.\<close>

definition copy_properties ::
  "(json \<Rightarrow> string) \<Rightarrow> json \<Rightarrow> ObjectAttributes \<Rightarrow> error + ObjectAttributes" where
  "copy_properties str jsonFeature att =
     try_pure (getitem jsonFeature (JStr ''properties'')) (\<lambda>p.
     if truthy p
     then try_pure (getitem jsonFeature (JStr ''properties'')) (\<lambda>properties.
          try_pure (py_iter properties) (\<lambda>keys.
          set_user_strings str properties keys att))
     else Inr att)"

text \<open>
  The body of the loop over the features: attributes (layer, then properties), the
  geometry entries, the converter looked up in the table and called, the add operation
  looked up and called.
\<close>

definition process_feature :: "(json \<Rightarrow> string) \<Rightarrow> json \<Rightarrow> Color \<Rightarrow> json \<Rightarrow> result cmd" where
  "process_feature str destinationLayer destinationLayerColor jsonFeature =
     try_cmd (set_layer destinationLayer destinationLayerColor new_attributes) (\<lambda>att0.
     try_val (copy_properties str jsonFeature att0) (\<lambda>att.
     try_val (getitem jsonFeature (JStr ''geometry'')) (\<lambda>geom.
     try_val (getitem geom (JStr ''type'')) (\<lambda>geomType.
     try_val (getitem geom (JStr ''coordinates'')) (\<lambda>coordinates.
     try_val (table_getitem geoJsonGeometryMap geomType) (\<lambda>entry.
     try_val (entry_0 entry) (\<lambda>convert.
     try_val (convert coordinates) (\<lambda>rhFeature.
     try_val (table_getitem geoJsonGeometryMap geomType) (\<lambda>entry'.
     try_val (entry_1 entry') (\<lambda>add.
     add rhFeature att))))))))))"

definition processGeoJson ::
  "(json \<Rightarrow> string) \<Rightarrow> json \<Rightarrow> json \<Rightarrow> Color \<Rightarrow> (result list) cmd" where
  "processGeoJson str parsedGeoJson destinationLayer destinationLayerColor =
     try_val (getitem parsedGeoJson (JStr ''features'')) (\<lambda>jsonFeatures.
     try_val (py_iter jsonFeatures) (\<lambda>features.
     for_append_cmd (process_feature str destinationLayer destinationLayerColor) features []))"

text \<open>
  \<open>loads\<close> is \<^verbatim>\<open>json.loads\<close>, a parameter. \<^verbatim>\<open>load\<close> takes a destination layer
  and a colour and calls \<^verbatim>\<open>processGeoJson(geoJson)\<close> with neither.
\<close>

definition load ::
  "(string \<Rightarrow> error + json) \<Rightarrow> (json \<Rightarrow> string) \<Rightarrow> string \<Rightarrow> json \<Rightarrow> Color \<Rightarrow> (result list) cmd" where
  "load loads str rawGeoJsonData destinationLayer destinationLayerColor =
     try_val (loads rawGeoJsonData) (\<lambda>geoJson.
     processGeoJson str geoJson JNull Black)"

text \<open>
  \<^verbatim>\<open>loadLayers(rawJsonData)\<close>: a \<^verbatim>\<open>str\<close> is decoded, a \<^verbatim>\<open>dict\<close> is taken as
  it is, and for any other type \<^verbatim>\<open>layersJson\<close> is never bound.
\<close>

definition loadLayers ::
  "(string \<Rightarrow> error + json) \<Rightarrow> (json \<Rightarrow> string) \<Rightarrow> json \<Rightarrow> (result list list) cmd" where
  "loadLayers loads str rawJsonData =
     try_val (case rawJsonData of
                JStr text \<Rightarrow> loads text
              | JObj kvs \<Rightarrow> Inr rawJsonData
              | _ \<Rightarrow> Inl UnboundLocalError) (\<lambda>layersJson.
     try_val (py_iter layersJson) (\<lambda>layerKeys.
     for_append_cmd
       (\<lambda>layerKey. try_val (getitem layersJson layerKey) (\<lambda>layer.
                    processGeoJson str layer layerKey Black))
       layerKeys []))"

subsection \<open>Notions used to state the properties\<close>

text \<open>The identifiers in a result, in order; a flat list holds identifiers only.\<close>

fun guids :: "result \<Rightarrow> nat list" where
  "guids (Guid g) = [g]"
| "guids (GuidList rs) = concat (map guids rs)"

fun is_guid :: "result \<Rightarrow> bool" where
  "is_guid (Guid g) = True"
| "is_guid (GuidList rs) = False"

definition flat :: "result list \<Rightarrow> bool" where
  "flat rs = list_all is_guid rs"

text \<open>The objects a command added: the object table only grows at its end.\<close>

definition added :: "doc \<Rightarrow> doc \<Rightarrow> RhinoObject list" where
  "added d d' = drop (length (Objects d)) (Objects d')"

text \<open>
  \<open>extends att d d' ids\<close>: the layers are those of \<open>d\<close>, and the objects are those of
  \<open>d\<close> followed by new ones that carry the attributes \<open>att\<close> and the identifiers
  \<open>ids\<close>, each identifier being the position of its object in the table.
\<close>

definition extends :: "ObjectAttributes \<Rightarrow> doc \<Rightarrow> doc \<Rightarrow> nat list \<Rightarrow> bool" where
  "extends att d d' ids \<longleftrightarrow>
     Layers d' = Layers d \<and>
     Objects d' = Objects d @ added d d' \<and>
     list_all (\<lambda>obj. Attributes obj = att) (added d d') \<and>
     map Id (added d d') = ids \<and>
     ids = [length (Objects d) ..< length (Objects d')]"

text \<open>\<^verbatim>\<open>jsonFeature['geometry']['type']\<close>\<close>

definition geometry_type :: "json \<Rightarrow> error + json" where
  "geometry_type jsonFeature =
     try_pure (getitem jsonFeature (JStr ''geometry'')) (\<lambda>geom. getitem geom (JStr ''type''))"

text \<open>
  Well-formed input: a position is a list that starts with two numbers; the coordinates
  of a geometry are positions nested as its type says; the properties of a feature are a
  mapping or null.
\<close>

fun is_number :: "json \<Rightarrow> bool" where
  "is_number (JInt i) = True"
| "is_number (JFloat r) = True"
| "is_number v = False"

fun is_position :: "json \<Rightarrow> bool" where
  "is_position (JArr (x # y # rest)) = (is_number x \<and> is_number y)"
| "is_position v = False"

fun is_positions :: "json \<Rightarrow> bool" where
  "is_positions (JArr ps) = list_all is_position ps"
| "is_positions v = False"

fun is_rings :: "json \<Rightarrow> bool" where
  "is_rings (JArr rs) = list_all is_positions rs"
| "is_rings v = False"

fun is_polygons :: "json \<Rightarrow> bool" where
  "is_polygons (JArr ps) = list_all is_rings ps"
| "is_polygons v = False"

definition valid_coordinates :: "string \<Rightarrow> json \<Rightarrow> bool" where
  "valid_coordinates t c =
     (if t = ''Point'' then is_position c
      else if t = ''MultiPoint'' \<or> t = ''LineString'' then is_positions c
      else if t = ''MultiLineString'' \<or> t = ''Polygon'' then is_rings c
      else if t = ''MultiPolygon'' then is_polygons c
      else False)"

fun is_properties :: "json \<Rightarrow> bool" where
  "is_properties (JObj ps) = True"
| "is_properties JNull = True"
| "is_properties v = False"

definition valid_feature :: "json \<Rightarrow> bool" where
  "valid_feature f =
     (case getitem f (JStr ''properties'') of
        Inl e \<Rightarrow> False
      | Inr p \<Rightarrow> is_properties p \<and>
          (case getitem f (JStr ''geometry'') of
             Inl e \<Rightarrow> False
           | Inr g \<Rightarrow>
               (case getitem g (JStr ''type'') of
                  Inr (JStr t) \<Rightarrow>
                    (case getitem g (JStr ''coordinates'') of
                       Inl e \<Rightarrow> False
                     | Inr c \<Rightarrow> valid_coordinates t c)
                | _ \<Rightarrow> False)))"

text \<open>The objects that adding the curves \<open>cvs\<close> appends when the table holds \<open>n\<close> objects.\<close>

fun curve_objects :: "nat \<Rightarrow> Curve list \<Rightarrow> ObjectAttributes \<Rightarrow> RhinoObject list" where
  "curve_objects n [] att = []"
| "curve_objects n (cv # cvs) att =
     \<lparr>Id = n, Geometry = RhCurve cv, Attributes = att\<rparr> # curve_objects (Suc n) cvs att"

subsection \<open>The example of the module's docstring\<close>

text \<open>The decoded \<^verbatim>\<open>myGeoJson\<close>: a Point, a LineString and a Polygon feature.\<close>

definition myGeoJson_point :: json where
  "myGeoJson_point =
     JObj [(''type'', JStr ''Feature''),
           (''geometry'', JObj [(''type'', JStr ''Point''),
                                (''coordinates'', JArr [JFloat 102.0, JFloat 0.5])]),
           (''properties'', JObj [(''prop0'', JStr ''value0'')])]"

definition myGeoJson_line :: json where
  "myGeoJson_line =
     JObj [(''type'', JStr ''Feature''),
           (''geometry'', JObj [(''type'', JStr ''LineString''),
                                (''coordinates'', JArr [JArr [JFloat 102.0, JFloat 0.0],
                                                        JArr [JFloat 103.0, JFloat 1.0],
                                                        JArr [JFloat 104.0, JFloat 0.0],
                                                        JArr [JFloat 105.0, JFloat 1.0]])]),
           (''properties'', JObj [(''prop0'', JStr ''value0''), (''prop1'', JFloat 0.0)])]"

definition myGeoJson_polygon :: json where
  "myGeoJson_polygon =
     JObj [(''type'', JStr ''Feature''),
           (''geometry'', JObj [(''type'', JStr ''Polygon''),
                                (''coordinates'', JArr [JArr [JArr [JFloat 100.0, JFloat 0.0],
                                                              JArr [JFloat 101.0, JFloat 0.0],
                                                              JArr [JFloat 101.0, JFloat 1.0],
                                                              JArr [JFloat 100.0, JFloat 1.0],
                                                              JArr [JFloat 100.0, JFloat 0.0]]])]),
           (''properties'', JObj [(''prop0'', JStr ''value0''),
                                  (''prop1'', JObj [(''this'', JStr ''that'')])])]"

definition myGeoJson :: json where
  "myGeoJson =
     JObj [(''type'', JStr ''FeatureCollection''),
           (''features'', JArr [myGeoJson_point, myGeoJson_line, myGeoJson_polygon])]"

section \<open>Properties\<close>

subsection \<open>Points\<close>

lemma int_to_double_exact: "\<bar>i\<bar> \<le> 2 ^ 53 \<Longrightarrow> int_to_double i = real_of_int i"
  by (simp add: int_to_double_def)

text \<open>
  C5 (as amended). For a coordinate payload whose first two elements are numbers that a
  double holds exactly, a float or an integer of magnitude at most \<open>2 ^ 53\<close>,
  \<^verbatim>\<open>PointToRhinoPoint\<close> returns the point (x, y, 0): whatever follows the first two
  elements is ignored and the elevation is zero.
\<close>

theorem PointToRhinoPoint_xy0:
  "PointToRhinoPoint (JArr (JFloat x # JFloat y # rest)) = Inr (RhPoint (Point3d x y 0))
   \<and> (\<bar>i\<bar> \<le> 2 ^ 53 \<and> \<bar>j\<bar> \<le> 2 ^ 53 \<longrightarrow>
        PointToRhinoPoint (JArr (JInt i # JInt j # rest))
          = Inr (RhPoint (Point3d (real_of_int i) (real_of_int j) 0)))
   \<and> (\<bar>j\<bar> \<le> 2 ^ 53 \<longrightarrow>
        PointToRhinoPoint (JArr (JFloat x # JInt j # rest))
          = Inr (RhPoint (Point3d x (real_of_int j) 0)))
   \<and> (\<bar>i\<bar> \<le> 2 ^ 53 \<longrightarrow>
        PointToRhinoPoint (JArr (JInt i # JFloat y # rest))
          = Inr (RhPoint (Point3d (real_of_int i) y 0)))"
  by (simp add: PointToRhinoPoint_def new_Point3d_def try_pure_def seq_index_def
      int_to_double_exact)

theorem PointToRhinoPoint_xy0_witness:
  "PointToRhinoPoint (JArr [JFloat 102.0, JFloat 0.5, JFloat 7]) = Inr (RhPoint (Point3d 102.0 0.5 0))
   \<and> \<bar>3::int\<bar> \<le> 2 ^ 53 \<and> \<bar>4::int\<bar> \<le> 2 ^ 53
   \<and> PointToRhinoPoint (JArr [JInt 3, JInt 4, JInt 5]) = Inr (RhPoint (Point3d 3 4 0))
   \<and> PointToRhinoPoint (JArr [JFloat 0.5, JInt 4]) = Inr (RhPoint (Point3d 0.5 4 0))
   \<and> PointToRhinoPoint (JArr [JInt 3, JFloat 0.5]) = Inr (RhPoint (Point3d 3 0.5 0))"
  using PointToRhinoPoint_xy0 [of "102.0" "0.5" "[JFloat 7]" 3 4]
    PointToRhinoPoint_xy0 [of "0.5" "0.5" "[]" 3 4]
    PointToRhinoPoint_xy0 [of "0.5" "0.5" "[JInt 5]" 3 4]
  by simp

text \<open>
  C5 as stated fails for an integer that no double holds: the point holds doubles, and
  the first coordinate \<open>2 ^ 53 + 1\<close> comes back as \<open>2 ^ 53\<close>.
\<close>

theorem PointToRhinoPoint_big_integer_counterexample:
  "PointToRhinoPoint (JArr [JInt 9007199254740993, JInt 0])
     = Inr (RhPoint (Point3d 9007199254740992 0 0))
   \<and> (9007199254740992 :: real) \<noteq> real_of_int 9007199254740993"
  by code_simp

subsection \<open>Layers\<close>

lemma Layers_Find_ge: "- 1 \<le> Layers_Find ls n"
  by (induction ls) (auto simp: Let_def)

lemma Layers_Find_absent: "(Layers_Find ls n = - 1) = (n \<notin> set (map Name ls))"
proof (induction ls)
  case Nil
  then show ?case by simp
next
  case (Cons l ls)
  from Layers_Find_ge [of ls n] have "Layers_Find ls n + 1 \<noteq> - 1" by arith
  with Cons show ?case by (simp add: Let_def)
qed

lemma Layers_Find_present:
  "Layers_Find ls n \<noteq> - 1 \<Longrightarrow>
     nat (Layers_Find ls n) < length ls \<and> Name (ls ! nat (Layers_Find ls n)) = n"
proof (induction ls)
  case Nil
  then show ?case by simp
next
  case (Cons l ls)
  show ?case
  proof (cases "Name l = n")
    case True
    then show ?thesis by simp
  next
    case False
    with Cons.prems have ne: "Layers_Find ls n \<noteq> - 1" by (auto simp: Let_def)
    with Layers_Find_ge [of ls n] have nn: "0 \<le> Layers_Find ls n" by arith
    from Cons.IH [OF ne] False ne nn show ?thesis
      by (simp add: Let_def nat_add_distrib)
  qed
qed

lemma Layers_Find_names:
  "map Name ls = map Name ls' \<Longrightarrow> Layers_Find ls n = Layers_Find ls' n"
proof (induction ls arbitrary: ls')
  case Nil
  then show ?case by simp
next
  case (Cons l ls)
  then obtain l' ms where "ls' = l' # ms" by (cases ls') auto
  with Cons show ?case by (auto simp: Let_def)
qed

lemma Layers_Find_append:
  "n \<notin> set (map Name ls) \<Longrightarrow> Layers_Find (ls @ [\<lparr>Name = n, Color = c\<rparr>]) n = int (length ls)"
  by (induction ls) (auto simp: Let_def)

lemma count_name_distinct:
  "distinct (map Name ls) \<Longrightarrow> n \<in> set (map Name ls) \<Longrightarrow>
     length (filter (\<lambda>l. Name l = n) ls) = 1"
proof (induction ls)
  case Nil
  then show ?case by simp
next
  case (Cons l ls)
  show ?case
  proof (cases "Name l = n")
    case True
    with Cons.prems have "n \<notin> Name ` set ls" by auto
    then have "filter (\<lambda>l. Name l = n) ls = []" by (auto simp: filter_empty_conv)
    with True show ?thesis by simp
  next
    case False
    with Cons show ?thesis by auto
  qed
qed

lemma names_recolour:
  "i < length ls \<Longrightarrow> map Name (ls[i := (ls ! i)\<lparr>Color := c\<rparr>]) = map Name ls"
  by (simp add: map_update list_update_same_conv)

text \<open>What one call of \<^verbatim>\<open>addRhinoLayer\<close> does to the layer table.\<close>

lemma addRhinoLayer_spec:
  assumes "addRhinoLayer n c d = (i, d')"
  shows "map Name (Layers d') =
           (if n \<in> set (map Name (Layers d)) then map Name (Layers d)
            else map Name (Layers d) @ [n])
     \<and> Objects d' = Objects d
     \<and> i = Layers_Find (Layers d') n \<and> 0 \<le> i \<and> nat i < length (Layers d')
     \<and> Name (Layers d' ! nat i) = n \<and> Color (Layers d' ! nat i) = c"
proof (cases "Layers_Find (Layers d) n = - 1")
  case True
  then have nin: "n \<notin> set (map Name (Layers d))" by (simp add: Layers_Find_absent)
  from True assms have d': "d' = d\<lparr>Layers := Layers d @ [\<lparr>Name = n, Color = c\<rparr>]\<rparr>"
    and i: "i = int (length (Layers d))"
    by (auto simp: addRhinoLayer_def Layers_Add_def)
  show ?thesis using nin Layers_Find_append [OF nin, of c] by (simp add: d' i)
next
  case False
  then have inn: "n \<in> set (map Name (Layers d))" by (simp add: Layers_Find_absent)
  let ?j = "nat (Layers_Find (Layers d) n)"
  from Layers_Find_present [OF False] have j: "?j < length (Layers d)" "Name (Layers d ! ?j) = n"
    by auto
  from Layers_Find_ge [of "Layers d" n] False have nn: "0 \<le> Layers_Find (Layers d) n" by arith
  from False assms have i: "i = Layers_Find (Layers d) n"
    by (auto simp: addRhinoLayer_def Let_def split: if_splits)
  show ?thesis
  proof (cases "Color (Layers d ! ?j) = c")
    case True
    with False assms have "d' = d" by (auto simp: addRhinoLayer_def Let_def)
    with i j nn inn True show ?thesis by simp
  next
    case ne: False
    with False assms have d': "d' = d\<lparr>Layers := (Layers d)[?j := (Layers d ! ?j)\<lparr>Color := c\<rparr>]\<rparr>"
      by (auto simp: addRhinoLayer_def Let_def)
    have names: "map Name (Layers d') = map Name (Layers d)"
      using names_recolour [OF j(1)] by (simp add: d')
    have "Layers_Find (Layers d') n = Layers_Find (Layers d) n"
      by (rule Layers_Find_names [OF names])
    with i j nn inn names show ?thesis by (simp add: d')
  qed
qed

text \<open>
  C4. In a document whose layer names are unique, two calls of \<^verbatim>\<open>addRhinoLayer\<close>
  with the same name and any two colours leave exactly one layer of that name; it has
  the colour of the second call, and the second call returns the index of that layer,
  the same index as the first call. The second call adds no layer.
\<close>

theorem addRhinoLayer_twice:
  assumes "distinct (map Name (Layers d))"
    and "addRhinoLayer n c1 d = (i1, d1)"
    and "addRhinoLayer n c2 d1 = (i2, d2)"
  shows "length (filter (\<lambda>l. Name l = n) (Layers d2)) = 1
     \<and> i2 = i1 \<and> 0 \<le> i2 \<and> nat i2 < length (Layers d2)
     \<and> Name (Layers d2 ! nat i2) = n \<and> Color (Layers d2 ! nat i2) = c2
     \<and> length (Layers d2) = length (Layers d1)"
proof -
  note s1 = addRhinoLayer_spec [OF assms(2)]
  note s2 = addRhinoLayer_spec [OF assms(3)]
  from s1 assms(1) have dist1: "distinct (map Name (Layers d1))"
    and in1: "n \<in> set (map Name (Layers d1))"
    by (auto split: if_splits)
  from s2 in1 have names2: "map Name (Layers d2) = map Name (Layers d1)" by simp
  from dist1 in1 names2 have "length (filter (\<lambda>l. Name l = n) (Layers d2)) = 1"
    by (intro count_name_distinct) simp_all
  moreover have "i2 = i1"
    using s1 s2 Layers_Find_names [OF names2, of n] by simp
  moreover have "length (Layers d2) = length (Layers d1)"
    using names2 by (metis length_map)
  ultimately show ?thesis using s2 by auto
qed

theorem addRhinoLayer_twice_witness:
  "distinct (map Name (Layers \<lparr>Layers = [\<lparr>Name = ''Default'', Color = Black\<rparr>], Objects = []\<rparr>))
   \<and> addRhinoLayer ''roads'' Black \<lparr>Layers = [\<lparr>Name = ''Default'', Color = Black\<rparr>], Objects = []\<rparr>
       = (1, \<lparr>Layers = [\<lparr>Name = ''Default'', Color = Black\<rparr>, \<lparr>Name = ''roads'', Color = Black\<rparr>],
              Objects = []\<rparr>)
   \<and> addRhinoLayer ''roads'' (FromArgb 255 255 0 0)
        \<lparr>Layers = [\<lparr>Name = ''Default'', Color = Black\<rparr>, \<lparr>Name = ''roads'', Color = Black\<rparr>],
         Objects = []\<rparr>
       = (1, \<lparr>Layers = [\<lparr>Name = ''Default'', Color = Black\<rparr>,
                        \<lparr>Name = ''roads'', Color = FromArgb 255 255 0 0\<rparr>], Objects = []\<rparr>)
   \<and> length (filter (\<lambda>l. Name l = ''roads'')
        [\<lparr>Name = ''Default'', Color = Black\<rparr>, \<lparr>Name = ''roads'', Color = FromArgb 255 255 0 0\<rparr>]) = 1"
  using addRhinoLayer_twice [of "\<lparr>Layers = [\<lparr>Name = ''Default'', Color = Black\<rparr>], Objects = []\<rparr>"
      "''roads''" Black 1
      "\<lparr>Layers = [\<lparr>Name = ''Default'', Color = Black\<rparr>, \<lparr>Name = ''roads'', Color = Black\<rparr>],
        Objects = []\<rparr>"
      "FromArgb 255 255 0 0" 1
      "\<lparr>Layers = [\<lparr>Name = ''Default'', Color = Black\<rparr>,
                  \<lparr>Name = ''roads'', Color = FromArgb 255 255 0 0\<rparr>], Objects = []\<rparr>"]
  by (simp add: addRhinoLayer_def Layers_Add_def Let_def)

subsection \<open>The object table\<close>

lemma extends_refl: "extends att d d []"
  by (simp add: extends_def added_def)

lemma extends_trans:
  assumes "extends att d d1 ids1" and "extends att d1 d2 ids2"
  shows "extends att d d2 (ids1 @ ids2)"
proof -
  from assms have o1: "Objects d1 = Objects d @ added d d1" and o2: "Objects d2 = Objects d1 @ added d1 d2"
    by (auto simp: extends_def)
  have a: "added d d2 = added d d1 @ added d1 d2"
    unfolding added_def by (subst (2) o2, subst (3) o1) (metis o1 o2 added_def append.assoc append_eq_conv_conj)
  have le: "length (Objects d) \<le> length (Objects d1)" "length (Objects d1) \<le> length (Objects d2)"
    using o1 o2 by (metis length_append le_add1)+
  have "[length (Objects d) ..< length (Objects d2)] =
        [length (Objects d) ..< length (Objects d1)] @ [length (Objects d1) ..< length (Objects d2)]"
    using le by (metis le_Suc_ex upt_add_eq_append)
  with assms a show ?thesis
    by (auto simp: extends_def)
qed

lemma add_object_extends: "add_object g att d = (i, d') \<Longrightarrow> extends att d d' [i]"
  by (auto simp: add_object_def extends_def added_def)

lemma add_objects_extends: "add_objects gs att d = (is, d') \<Longrightarrow> extends att d d' is \<and> length is = length gs"
proof (induction gs arbitrary: d d' "is")
  case Nil
  then show ?case by (simp add: extends_refl)
next
  case (Cons g gs)
  obtain i d1 where 1: "add_object g att d = (i, d1)" by (cases "add_object g att d")
  obtain js d2 where 2: "add_objects gs att d1 = (js, d2)" by (cases "add_objects gs att d1")
  from Cons.prems 1 2 have eq: "is = i # js" "d' = d2" by auto
  from extends_trans [OF add_object_extends [OF 1]] Cons.IH [OF 2] show ?case
    by (simp add: eq)
qed


subsection \<open>Add operations only append objects\<close>

text \<open>
  An add operation of the module or of the host only appends objects, with the
  attributes it was given.
\<close>

lemma Objects_AddPoint_extends:
  "Objects_AddPoint g att d = (r, d') \<Longrightarrow>
     \<exists>ids. extends att d d' ids \<and> (\<forall>res. r = Inr res \<longrightarrow> guids res = ids \<and> is_guid res)"
  by (cases g) (auto split: prod.splits dest: add_object_extends intro: extends_refl)

lemma Objects_AddCurve_extends:
  "Objects_AddCurve g att d = (r, d') \<Longrightarrow>
     \<exists>ids. extends att d d' ids \<and> (\<forall>res. r = Inr res \<longrightarrow> guids res = ids \<and> is_guid res)"
  by (cases g) (auto split: prod.splits dest: add_object_extends intro: extends_refl)

lemma guids_map_Guid: "concat (map (guids \<circ> Guid) is) = is"
  by (induction "is") auto

lemma for_append_cmd_extends:
  assumes step: "\<And>x d r d'. f x d = (r, d') \<Longrightarrow>
      \<exists>ids. extends att d d' ids \<and> (\<forall>res. r = Inr res \<longrightarrow> guids res = ids \<and> Q res)"
  shows "for_append_cmd f xs acc d = (r, d') \<Longrightarrow>
     \<exists>ids. extends att d d' ids \<and>
       (\<forall>rs. r = Inr rs \<longrightarrow>
          (\<exists>zs. rs = acc @ zs \<and> length zs = length xs \<and> concat (map guids zs) = ids \<and> list_all Q zs))"
proof (induction xs arbitrary: acc d)
  case Nil
  then show ?case by (auto intro: extends_refl)
next
  case (Cons x xs)
  obtain r1 d1 where 1: "f x d = (r1, d1)" by (cases "f x d")
  from step [OF 1] obtain ids1 where e1: "extends att d d1 ids1"
    and r1: "\<forall>res. r1 = Inr res \<longrightarrow> guids res = ids1 \<and> Q res" by blast
  show ?case
  proof (cases r1)
    case (Inl e)
    with Cons.prems 1 have "r = Inl e" "d' = d1" by auto
    with e1 show ?thesis by auto
  next
    case (Inr y)
    with Cons.prems 1 have 2: "for_append_cmd f xs (acc @ [y]) d1 = (r, d')" by simp
    from Cons.IH [OF 2] obtain ids2 where e2: "extends att d1 d' ids2"
      and r2: "\<forall>rs. r = Inr rs \<longrightarrow>
          (\<exists>zs. rs = (acc @ [y]) @ zs \<and> length zs = length xs \<and> concat (map guids zs) = ids2 \<and> list_all Q zs)"
      by blast
    have "\<forall>rs. r = Inr rs \<longrightarrow>
          (\<exists>zs. rs = acc @ zs \<and> length zs = length (x # xs) \<and> concat (map guids zs) = ids1 @ ids2 \<and> list_all Q zs)"
    proof (intro allI impI)
      fix rs assume "r = Inr rs"
      with r2 obtain zs where zs: "rs = (acc @ [y]) @ zs" "length zs = length xs"
        "concat (map guids zs) = ids2" "list_all Q zs" by blast
      with r1 Inr show "\<exists>zs. rs = acc @ zs \<and> length zs = length (x # xs) \<and> concat (map guids zs) = ids1 @ ids2 \<and> list_all Q zs"
        by (intro exI [of _ "y # zs"]) simp
    qed
    with extends_trans [OF e1 e2] show ?thesis by blast
  qed
qed

lemma addCurves_extends:
  assumes "addCurves g att d = (r, d')"
  shows "\<exists>ids. extends att d d' ids \<and>
     (\<forall>res. r = Inr res \<longrightarrow> guids res = ids \<and> (\<exists>zs. res = GuidList zs \<and> flat zs))"
proof (cases g)
  case (RhList curves)
  obtain r1 d1 where 1: "for_append_cmd (\<lambda>curve. addCurve curve att) curves [] d = (r1, d1)"
    by (cases "for_append_cmd (\<lambda>curve. addCurve curve att) curves [] d")
  have "\<exists>ids. extends att d d1 ids \<and>
       (\<forall>rs. r1 = Inr rs \<longrightarrow>
          (\<exists>zs. rs = [] @ zs \<and> length zs = length curves \<and> concat (map guids zs) = ids \<and> list_all is_guid zs))"
  proof (rule for_append_cmd_extends [where Q = is_guid, OF _ 1])
    fix x d r d'
    assume "addCurve x att d = (r, d')"
    then show "\<exists>ids. extends att d d' ids \<and> (\<forall>res. r = Inr res \<longrightarrow> guids res = ids \<and> is_guid res)"
      unfolding addCurve_def by (rule Objects_AddCurve_extends)
  qed
  then obtain ids where e: "extends att d d1 ids"
    and rs: "\<forall>rs. r1 = Inr rs \<longrightarrow>
          (\<exists>zs. rs = [] @ zs \<and> length zs = length curves \<and> concat (map guids zs) = ids \<and> list_all is_guid zs)"
    by blast
  from assms RhList 1 have "(r, d') = (case r1 of Inl e \<Rightarrow> (Inl e, d1) | Inr gl \<Rightarrow> (Inr (GuidList gl), d1))"
    by (simp add: addCurves_def try_val_def try_cmd_def ret_def split: sum.splits)
  with e rs show ?thesis by (cases r1) (auto simp: flat_def)
qed (use assms in \<open>auto simp: addCurves_def try_val_def intro: extends_refl\<close>)

lemma addPolygons_loop_extends:
  "addPolygons_loop ps att acc d = (r, d') \<Longrightarrow> flat acc \<Longrightarrow>
     \<exists>ids. extends att d d' ids \<and>
       (\<forall>rs. r = Inr rs \<longrightarrow> concat (map guids rs) = concat (map guids acc) @ ids \<and> flat rs)"
proof (induction ps arbitrary: acc d)
  case Nil
  then show ?case by (auto intro: extends_refl)
next
  case (Cons p ps)
  obtain r1 d1 where 1: "addPolygon p att d = (r1, d1)" by (cases "addPolygon p att d")
  from addCurves_extends [OF 1 [unfolded addPolygon_def]] obtain ids1 where e1: "extends att d d1 ids1"
    and r1: "\<forall>res. r1 = Inr res \<longrightarrow> guids res = ids1 \<and> (\<exists>zs. res = GuidList zs \<and> flat zs)" by blast
  show ?case
  proof (cases r1)
    case (Inl e)
    with Cons.prems 1 have "r = Inl e" "d' = d1" by auto
    with e1 show ?thesis by auto
  next
    case (Inr res)
    with r1 obtain zs where zs: "res = GuidList zs" "flat zs" "guids res = ids1" by blast
    with Cons.prems 1 Inr have 2: "addPolygons_loop ps att (acc @ zs) d1 = (r, d')" by simp
    from Cons.prems zs have "flat (acc @ zs)" by (simp add: flat_def)
    from Cons.IH [OF 2 this] obtain ids2 where e2: "extends att d1 d' ids2"
      and r2: "\<forall>rs. r = Inr rs \<longrightarrow> concat (map guids rs) = concat (map guids (acc @ zs)) @ ids2 \<and> flat rs"
      by blast
    from r2 zs have "\<forall>rs. r = Inr rs \<longrightarrow> concat (map guids rs) = concat (map guids acc) @ ids1 @ ids2 \<and> flat rs"
      by auto
    with extends_trans [OF e1 e2] show ?thesis by blast
  qed
qed

lemma addPolygons_extends:
  assumes "addPolygons g att d = (r, d')"
  shows "\<exists>ids. extends att d d' ids \<and>
     (\<forall>res. r = Inr res \<longrightarrow> guids res = ids \<and> (\<exists>zs. res = GuidList zs \<and> flat zs))"
proof (cases g)
  case (RhList ps)
  obtain r1 d1 where 1: "addPolygons_loop ps att [] d = (r1, d1)"
    by (cases "addPolygons_loop ps att [] d")
  have "flat []" by (simp add: flat_def)
  from addPolygons_loop_extends [OF 1 this] obtain ids where e: "extends att d d1 ids"
    and rs: "\<forall>rs. r1 = Inr rs \<longrightarrow> concat (map guids rs) = concat (map guids []) @ ids \<and> flat rs"
    by blast
  from assms RhList 1 have "(r, d') = (case r1 of Inl e \<Rightarrow> (Inl e, d1) | Inr gl \<Rightarrow> (Inr (GuidList gl), d1))"
    by (simp add: addPolygons_def try_val_def try_cmd_def ret_def split: sum.splits)
  with e rs show ?thesis by (cases r1) auto
qed (use assms in \<open>auto simp: addPolygons_def try_val_def intro: extends_refl\<close>)

text \<open>Every add operation of the table, with the shape of what it returns.\<close>

lemma table_add_extends:
  assumes "map_of geoJsonGeometryMap t = Some (Tuple conv add)"
    and "add rh att d = (r, d')"
  shows "\<exists>ids. extends att d d' ids \<and>
     (\<forall>res. r = Inr res \<longrightarrow> guids res = ids \<and>
        (if t = ''Point'' \<or> t = ''LineString'' then is_guid res else \<exists>zs. res = GuidList zs \<and> flat zs))"
proof -
  from assms(1) consider
      "t = ''Point''" "add = addPoint"
    | "t = ''MultiPoint''" "add = addPoints"
    | "t = ''LineString''" "add = addCurve"
    | "t = ''MultiLineString''" "add = addCurves"
    | "t = ''Polygon''" "add = addPolygon"
    | "t = ''MultiPolygon''" "add = addPolygons"
    by (auto simp: geoJsonGeometryMap_def split: if_splits)
  then show ?thesis
  proof cases
    case 1
    with assms(2) Objects_AddPoint_extends [of rh att d r d'] show ?thesis
      by (simp add: addPoint_def)
  next
    case 2
    from assms(2) 2 have a: "Objects_AddPoints rh att d = (r, d')" by (simp add: addPoints_def)
    show ?thesis
    proof (cases rh)
      case (RhList ps)
      with a show ?thesis using 2
        by (auto split: prod.splits if_splits simp: guids_map_Guid flat_def list_all_iff
            dest: add_objects_extends intro: extends_refl)
    qed (use a in \<open>auto intro: extends_refl\<close>)
  next
    case 3
    with assms(2) Objects_AddCurve_extends [of rh att d r d'] show ?thesis
      by (simp add: addCurve_def)
  next
    case 4
    with assms(2) addCurves_extends [of rh att d r d'] show ?thesis by simp
  next
    case 5
    with assms(2) addCurves_extends [of rh att d r d'] show ?thesis by (simp add: addPolygon_def)
  next
    case 6
    with assms(2) addPolygons_extends [of rh att d r d'] show ?thesis by simp
  qed
qed


subsection \<open>One feature\<close>

lemma set_layer_spec:
  assumes "set_layer dl dc att d = (r, d1)"
  shows "Objects d1 = Objects d
     \<and> (dl = JNull \<longrightarrow> d1 = d \<and> r = Inr att)
     \<and> (\<forall>e. r = Inl e \<longrightarrow> d1 = d)
     \<and> (\<forall>att1. r = Inr att1 \<longrightarrow> UserStrings att1 = UserStrings att \<and>
           (dl \<noteq> JNull \<longrightarrow> (\<exists>n i. dl = JStr n \<and> addRhinoLayer n dc d = (i, d1) \<and>
                                   att1 = att\<lparr>LayerIndex := Some i\<rparr>)))"
  using assms
  by (cases dl) (auto simp: set_layer_def split: prod.splits dest: addRhinoLayer_spec)

lemma set_user_strings_LayerIndex:
  "set_user_strings str p ks att = Inr att' \<Longrightarrow> LayerIndex att' = LayerIndex att"
proof (induction ks arbitrary: att)
  case Nil
  then show ?case by simp
next
  case (Cons k ks)
  then show ?case 
    by (cases k) (auto split: sum.splits)
qed

lemma copy_properties_LayerIndex:
  "copy_properties str f att = Inr att' \<Longrightarrow> LayerIndex att' = LayerIndex att"
  by (auto simp: copy_properties_def try_pure_def split: sum.splits if_splits
      dest: set_user_strings_LayerIndex)

lemma set_user_strings_obj:
  "set ks \<subseteq> fst ` set ps \<Longrightarrow>
     \<exists>att'. set_user_strings str (JObj ps) (map JStr ks) att = Inr att'
        \<and> LayerIndex att' = LayerIndex att
        \<and> (\<forall>k. UserStrings att' k =
              (if k \<in> set ks then map_option str (map_of ps k) else UserStrings att k))"
proof (induction ks arbitrary: att)
  case Nil
  then show ?case by simp
next
  case (Cons k ks)
  from Cons.prems obtain v where v: "map_of ps k = Some v"
    by (metis list.set_intros(1) subsetD weak_map_of_SomeI map_of_eq_None_iff not_Some_eq)
  let ?att1 = "att\<lparr>UserStrings := (UserStrings att)(k \<mapsto> str v)\<rparr>"
  from Cons.prems have "set ks \<subseteq> fst ` set ps" by simp
  from Cons.IH [OF this, of ?att1] obtain att' where
    a: "set_user_strings str (JObj ps) (map JStr ks) ?att1 = Inr att'"
    "LayerIndex att' = LayerIndex ?att1"
    "\<forall>k'. UserStrings att' k' =
              (if k' \<in> set ks then map_option str (map_of ps k') else UserStrings ?att1 k')"
    by blast
  have "set_user_strings str (JObj ps) (map JStr (k # ks)) att = Inr att'"
    using v a(1) by simp
  moreover have "\<forall>k'. UserStrings att' k' =
      (if k' \<in> set (k # ks) then map_option str (map_of ps k') else UserStrings att k')"
    using a(3) v by auto
  ultimately show ?case using a(2) by auto
qed

lemma copy_properties_obj:
  assumes "getitem f (JStr ''properties'') = Inr (JObj ps)"
  shows "\<exists>att'. copy_properties str f att = Inr att'
        \<and> LayerIndex att' = LayerIndex att
        \<and> (\<forall>k. UserStrings att' k =
              (case map_of ps k of None \<Rightarrow> UserStrings att k | Some v \<Rightarrow> Some (str v)))"
proof (cases "ps = []")
  case True
  with assms show ?thesis by (simp add: copy_properties_def try_pure_def)
next
  case False
  have keys: "map (\<lambda>kv. JStr (fst kv)) ps = map JStr (map fst ps)" by simp
  from set_user_strings_obj [of "map fst ps" ps str att] obtain att' where
    a: "set_user_strings str (JObj ps) (map JStr (map fst ps)) att = Inr att'"
    "LayerIndex att' = LayerIndex att"
    "\<forall>k. UserStrings att' k =
              (if k \<in> set (map fst ps) then map_option str (map_of ps k) else UserStrings att k)"
    by auto
  have "copy_properties str f att = Inr att'"
    using assms False a(1) by (simp add: copy_properties_def try_pure_def comp_def)
  moreover have "\<forall>k. UserStrings att' k =
              (case map_of ps k of None \<Rightarrow> UserStrings att k | Some v \<Rightarrow> Some (str v))"
  proof
    fix k
    show "UserStrings att' k =
              (case map_of ps k of None \<Rightarrow> UserStrings att k | Some v \<Rightarrow> Some (str v))"
    proof (cases "map_of ps k")
      case None
      then have "k \<notin> fst ` set ps" by (simp add: map_of_eq_None_iff)
      with a(3) None show ?thesis by simp
    next
      case (Some v)
      then have "k \<in> fst ` set ps" by (metis map_of_eq_None_iff option.distinct(1))
      with a(3) Some show ?thesis by simp
    qed
  qed
  ultimately show ?thesis using a(2) by blast
qed

lemma table_getitem_Inr:
  "table_getitem tab gt = Inr entry \<Longrightarrow> \<exists>t. gt = JStr t \<and> map_of tab t = Some entry"
  by (cases gt) (auto split: option.splits)

lemma entry_Tuple: "entry_0 entry = Inr conv \<Longrightarrow> entry_1 entry = Inr add \<Longrightarrow> entry = Tuple conv add"
  by (cases entry) auto

lemma process_feature_inv:
  assumes "process_feature str dl dc f d = (r, d')"
  shows "(\<exists>e r0. r = Inl e \<and> set_layer dl dc new_attributes d = (r0, d'))
     \<or> (\<exists>att0 d1 att g t c conv add rh.
           set_layer dl dc new_attributes d = (Inr att0, d1)
         \<and> copy_properties str f att0 = Inr att
         \<and> getitem f (JStr ''geometry'') = Inr g
         \<and> getitem g (JStr ''type'') = Inr (JStr t)
         \<and> getitem g (JStr ''coordinates'') = Inr c
         \<and> map_of geoJsonGeometryMap t = Some (Tuple conv add)
         \<and> conv c = Inr rh
         \<and> add rh att d1 = (r, d'))"
proof -
  obtain r0 d1 where sl: "set_layer dl dc new_attributes d = (r0, d1)"
    by (cases "set_layer dl dc new_attributes d")
  show ?thesis
  proof (cases "\<exists>e. r = Inl e \<and> d' = d1")
    case True
    with sl show ?thesis by auto
  next
    case False
    with assms sl obtain att0 att g gt c entry conv rh entry' add where
      steps: "r0 = Inr att0" "copy_properties str f att0 = Inr att"
        "getitem f (JStr ''geometry'') = Inr g" "getitem g (JStr ''type'') = Inr gt"
        "getitem g (JStr ''coordinates'') = Inr c"
        "table_getitem geoJsonGeometryMap gt = Inr entry" "entry_0 entry = Inr conv"
        "conv c = Inr rh" "table_getitem geoJsonGeometryMap gt = Inr entry'"
        "entry_1 entry' = Inr add" "add rh att d1 = (r, d')"
      unfolding process_feature_def try_cmd_def try_val_def
      by (auto split: sum.splits)
    from steps(6,9) have same: "entry' = entry" by simp
    from table_getitem_Inr [OF steps(6)] obtain t where t: "gt = JStr t"
      "map_of geoJsonGeometryMap t = Some entry" by blast
    from entry_Tuple [OF steps(7) steps(10) [unfolded same]] have "entry = Tuple conv add" .
    with sl steps t show ?thesis by auto
  qed
qed

lemma process_feature_objects:
  assumes "process_feature str dl dc f d = (r, d')"
  shows "\<exists>att ids d1. Objects d1 = Objects d \<and> extends att d1 d' ids
     \<and> (dl = JNull \<longrightarrow> d1 = d \<and> LayerIndex att = None)
     \<and> (\<forall>res. r = Inr res \<longrightarrow> guids res = ids)"
  using process_feature_inv [OF assms]
proof (elim disjE exE conjE)
  fix e r0
  assume a: "r = Inl e" "set_layer dl dc new_attributes d = (r0, d')"
  from set_layer_spec [OF a(2)]
  have "Objects d' = Objects d" "dl = JNull \<longrightarrow> d' = d" by auto
  moreover have "extends new_attributes d' d' []" by (rule extends_refl)
  moreover have "LayerIndex new_attributes = None" by (simp add: new_attributes_def)
  ultimately show ?thesis using a(1) by blast
next
  fix att0 d1 att g t c conv add rh
  assume a: "set_layer dl dc new_attributes d = (Inr att0, d1)"
    "copy_properties str f att0 = Inr att"
    "map_of geoJsonGeometryMap t = Some (Tuple conv add)"
    "add rh att d1 = (r, d')"
  from table_add_extends [OF a(3) a(4)] obtain ids where
    e: "extends att d1 d' ids" "\<forall>res. r = Inr res \<longrightarrow> guids res = ids" by blast
  from set_layer_spec [OF a(1)] copy_properties_LayerIndex [OF a(2)]
  have "Objects d1 = Objects d" "dl = JNull \<longrightarrow> d1 = d \<and> LayerIndex att = None"
    by (auto simp: new_attributes_def)
  with e show ?thesis by blast
qed

lemma features_loop_objects:
  "for_append_cmd (process_feature str dl dc) fs acc d = (r, d') \<Longrightarrow>
     Objects d' = Objects d @ added d d'
     \<and> (dl = JNull \<longrightarrow> Layers d' = Layers d
           \<and> list_all (\<lambda>obj. LayerIndex (Attributes obj) = None) (added d d'))
     \<and> (\<forall>rs. r = Inr rs \<longrightarrow>
          (\<exists>zs. rs = acc @ zs \<and> length zs = length fs \<and> map Id (added d d') = concat (map guids zs)))"
proof (induction fs arbitrary: acc d)
  case Nil
  then show ?case by (auto simp: added_def)
next
  case (Cons f fs)
  obtain r1 d1 where 1: "process_feature str dl dc f d = (r1, d1)"
    by (cases "process_feature str dl dc f d")
  from process_feature_objects [OF 1] obtain att ids d0 where
    p: "Objects d0 = Objects d" "extends att d0 d1 ids"
      "dl = JNull \<longrightarrow> d0 = d \<and> LayerIndex att = None"
      "\<forall>res. r1 = Inr res \<longrightarrow> guids res = ids" by blast
  from p(1,2) have o1: "Objects d1 = Objects d @ added d d1" 
    and ids: "map Id (added d d1) = ids"
    and atts: "list_all (\<lambda>obj. Attributes obj = att) (added d d1)"
    by (auto simp: extends_def added_def)
  from p(2,3) have l1: "dl = JNull \<longrightarrow> Layers d1 = Layers d" by (auto simp: extends_def)
  from atts p(3) have n1: "dl = JNull \<longrightarrow> list_all (\<lambda>obj. LayerIndex (Attributes obj) = None) (added d d1)"
    by (auto simp: list_all_iff)
  show ?case
  proof (cases r1)
    case (Inl e)
    with Cons.prems 1 have "r = Inl e" "d' = d1" by auto
    with o1 l1 n1 show ?thesis by auto
  next
    case (Inr y)
    with Cons.prems 1 have 2: "for_append_cmd (process_feature str dl dc) fs (acc @ [y]) d1 = (r, d')"
      by simp
    note ih = Cons.IH [OF 2]
    from ih have o2: "Objects d' = Objects d1 @ added d1 d'" by simp
    have a: "added d d' = added d d1 @ added d1 d'"
      using o1 o2 by (metis added_def append.assoc append_eq_conv_conj)
    have "Objects d' = Objects d @ added d d'"
      using o1 o2 a by simp
    moreover have "dl = JNull \<longrightarrow> Layers d' = Layers d
           \<and> list_all (\<lambda>obj. LayerIndex (Attributes obj) = None) (added d d')"
      using ih l1 n1 a by auto
    moreover have "\<forall>rs. r = Inr rs \<longrightarrow>
          (\<exists>zs. rs = acc @ zs \<and> length zs = length (f # fs) \<and> map Id (added d d') = concat (map guids zs))"
    proof (intro allI impI)
      fix rs assume "r = Inr rs"
      with ih obtain zs where zs: "rs = (acc @ [y]) @ zs" "length zs = length fs"
        "map Id (added d1 d') = concat (map guids zs)" by blast
      with p(4) Inr ids a
      show "\<exists>zs. rs = acc @ zs \<and> length zs = length (f # fs) \<and> map Id (added d d') = concat (map guids zs)"
        by (intro exI [of _ "y # zs"]) simp
    qed
    ultimately show ?thesis by blast
  qed
qed

lemma processGeoJson_objects:
  assumes "processGeoJson str coll dl dc d = (r, d')"
  shows "Objects d' = Objects d @ added d d'
     \<and> (dl = JNull \<longrightarrow> Layers d' = Layers d
           \<and> list_all (\<lambda>obj. LayerIndex (Attributes obj) = None) (added d d'))"
proof (cases "\<exists>fs. getitem coll (JStr ''features'') = Inr fs \<and> (\<exists>xs. py_iter fs = Inr xs)")
  case True
  then obtain fs xs where "getitem coll (JStr ''features'') = Inr fs" "py_iter fs = Inr xs" by blast
  with assms have "for_append_cmd (process_feature str dl dc) xs [] d = (r, d')"
    by (simp add: processGeoJson_def try_val_def)
  from features_loop_objects [OF this] show ?thesis by simp
next
  case False
  with assms have "d' = d"
    by (auto simp: processGeoJson_def try_val_def split: sum.splits)
  then show ?thesis by (simp add: added_def)
qed

subsection \<open>Loading without a destination layer\<close>

text \<open>
  C2. Whatever destination layer and colour are given to \<^verbatim>\<open>load\<close>, the result and
  the document are those of the call with \<^verbatim>\<open>None\<close> and the default colour: the layer
  table is left as it was, objects are only appended, and no appended object has a
  layer index assigned.
\<close>

theorem load_ignores_destination_layer:
  "load loads str raw dl dc d = load loads str raw JNull Black d
   \<and> Layers (snd (load loads str raw dl dc d)) = Layers d
   \<and> Objects (snd (load loads str raw dl dc d)) = Objects d @ added d (snd (load loads str raw dl dc d))
   \<and> list_all (\<lambda>obj. LayerIndex (Attributes obj) = None) (added d (snd (load loads str raw dl dc d)))"
proof (cases "loads raw")
  case (Inl e)
  then show ?thesis by (simp add: load_def try_val_def added_def)
next
  case (Inr geoJson)
  obtain r d' where p: "processGeoJson str geoJson JNull Black d = (r, d')"
    by (cases "processGeoJson str geoJson JNull Black d")
  from processGeoJson_objects [OF p] Inr p show ?thesis
    by (simp add: load_def try_val_def)
qed

lemma for_append_cmd_results:
  assumes step: "\<And>x d r d'. f x d = (Inr r, d') \<Longrightarrow> P x r"
  shows "for_append_cmd f xs acc d = (Inr rs, d') \<Longrightarrow>
     \<exists>zs. rs = acc @ zs \<and> list_all2 P xs zs"
proof (induction xs arbitrary: acc d)
  case Nil
  then show ?case by simp
next
  case (Cons x xs)
  from Cons.prems obtain y d1 where 1: "f x d = (Inr y, d1)"
    and 2: "for_append_cmd f xs (acc @ [y]) d1 = (Inr rs, d')"
    by (auto split: prod.splits sum.splits)
  from Cons.IH [OF 2] obtain zs where "rs = (acc @ [y]) @ zs" "list_all2 P xs zs" by blast
  with step [OF 1] show ?case by (intro exI [of _ "y # zs"]) simp
qed

lemma processGeoJson_features:
  "getitem coll (JStr ''features'') = Inr (JArr fs) \<Longrightarrow>
     processGeoJson str coll dl dc d = for_append_cmd (process_feature str dl dc) fs [] d"
  by (simp add: processGeoJson_def try_val_def)

lemma process_feature_shape:
  assumes "process_feature str dl dc f d = (Inr res, d')"
  shows "\<exists>t. geometry_type f = Inr (JStr t) \<and>
           (if t = ''Point'' \<or> t = ''LineString'' then is_guid res
            else t \<in> {''MultiPoint'', ''MultiLineString'', ''Polygon'', ''MultiPolygon''}
                 \<and> (\<exists>zs. res = GuidList zs \<and> flat zs))"
  using process_feature_inv [OF assms]
proof (elim disjE exE conjE)
  fix att0 d1 att g t c conv add rh
  assume a: "getitem f (JStr ''geometry'') = Inr g" "getitem g (JStr ''type'') = Inr (JStr t)"
    "map_of geoJsonGeometryMap t = Some (Tuple conv add)"
    "add rh att d1 = (Inr res, d')"
  from a(1,2) have gt: "geometry_type f = Inr (JStr t)" by (simp add: geometry_type_def try_pure_def)
  from a(3) have keys: "t \<in> {''Point'', ''LineString'', ''MultiPoint'', ''MultiLineString'', ''Polygon'', ''MultiPolygon''}"
    by (auto simp: geoJsonGeometryMap_def split: if_splits)
  from table_add_extends [OF a(3) a(4)] gt keys show ?thesis by auto
qed simp

lemma processGeoJson_entries:
  assumes "processGeoJson str coll dl dc d = (Inr rs, d')"
    and "getitem coll (JStr ''features'') = Inr (JArr fs)"
  shows "length rs = length fs
     \<and> (\<forall>i<length fs. \<exists>t. geometry_type (fs ! i) = Inr (JStr t) \<and>
           (if t = ''Point'' \<or> t = ''LineString'' then is_guid (rs ! i)
            else t \<in> {''MultiPoint'', ''MultiLineString'', ''Polygon'', ''MultiPolygon''}
                 \<and> (\<exists>zs. rs ! i = GuidList zs \<and> flat zs)))
     \<and> Objects d' = Objects d @ added d d'
     \<and> map Id (added d d') = concat (map guids rs)"
proof -
  let ?P = "\<lambda>f res. \<exists>t. geometry_type f = Inr (JStr t) \<and>
           (if t = ''Point'' \<or> t = ''LineString'' then is_guid res
            else t \<in> {''MultiPoint'', ''MultiLineString'', ''Polygon'', ''MultiPolygon''}
                 \<and> (\<exists>zs. res = GuidList zs \<and> flat zs))"
  from assms have loop: "for_append_cmd (process_feature str dl dc) fs [] d = (Inr rs, d')"
    by (simp add: processGeoJson_features)
  have "\<exists>zs. rs = [] @ zs \<and> list_all2 ?P fs zs"
    by (rule for_append_cmd_results [OF _ loop]) (rule process_feature_shape)
  then have all2: "list_all2 ?P fs rs" by simp
  then have len: "length rs = length fs" by (simp add: list_all2_lengthD)
  from all2 have shape: "\<forall>i<length fs. ?P (fs ! i) (rs ! i)"
    by (simp add: list_all2_conv_all_nth)
  from features_loop_objects [OF loop]
  have "Objects d' = Objects d @ added d d'" "map Id (added d d') = concat (map guids rs)"
    by auto
  with len shape show ?thesis by blast
qed

subsection \<open>A feature that fails\<close>

lemma for_append_cmd_append:
  "for_append_cmd f (xs @ ys) acc d =
     (case for_append_cmd f xs acc d of
        (Inl e, d') \<Rightarrow> (Inl e, d')
      | (Inr acc', d') \<Rightarrow> for_append_cmd f ys acc' d')"
  by (induction xs arbitrary: acc d) (auto split: prod.splits sum.splits)

lemma processGeoJson_fails_at:
  assumes "getitem coll (JStr ''features'') = Inr (JArr (pre @ f # post))"
    and "processGeoJson str (JObj [(''features'', JArr pre)]) dl dc d = (Inr rs, d1)"
    and "process_feature str dl dc f d1 = (Inl e, d2)"
  shows "processGeoJson str coll dl dc d = (Inl e, d2)"
proof -
  from assms(2) have "for_append_cmd (process_feature str dl dc) pre [] d = (Inr rs, d1)"
    by (simp add: processGeoJson_features)
  with assms(3) have "for_append_cmd (process_feature str dl dc) (pre @ f # post) [] d = (Inl e, d2)"
    by (simp add: for_append_cmd_append)
  with assms(1) show ?thesis by (simp add: processGeoJson_features)
qed

lemma set_layer_ok:
  assumes "dl = JNull \<or> dl = JStr n"
  shows "\<exists>att0 d1. set_layer dl dc att d = (Inr att0, d1) \<and> Objects d1 = Objects d
     \<and> UserStrings att0 = UserStrings att"
proof -
  obtain r d1 where sl: "set_layer dl dc att d = (r, d1)" by (cases "set_layer dl dc att d")
  from assms sl have "\<exists>att0. r = Inr att0"
    by (auto simp: set_layer_def split: prod.splits)
  with set_layer_spec [OF sl] sl show ?thesis by auto
qed

text \<open>Once the attributes are set up and the geometry entries are read, the table decides.\<close>

lemma process_feature_dispatch:
  assumes "set_layer dl dc new_attributes d = (Inr att0, d1)"
    and "copy_properties str f att0 = Inr att"
    and "getitem f (JStr ''geometry'') = Inr g"
    and "getitem g (JStr ''type'') = Inr gt"
    and "getitem g (JStr ''coordinates'') = Inr c"
  shows "process_feature str dl dc f d =
     (case table_getitem geoJsonGeometryMap gt of
        Inl e \<Rightarrow> (Inl e, d1)
      | Inr (Function fn) \<Rightarrow> (Inl TypeError, d1)
      | Inr (Tuple conv add) \<Rightarrow>
          (case conv c of Inl e \<Rightarrow> (Inl e, d1) | Inr rh \<Rightarrow> add rh att d1))"
  using assms
  by (simp add: process_feature_def try_cmd_def try_val_def split: sum.splits entry.splits)

lemma table_GeometryCollection:
  "map_of geoJsonGeometryMap ''GeometryCollection'' = Some (Function GeometryCollectionToParser)"
  by (simp add: geoJsonGeometryMap_def)

text \<open>
  C7 (as amended). A feature with a properties mapping and a geometry that has a
  coordinates entry and whose type is a text that is not a key of the converter table:
  when the features before it were processed without failure, \<^verbatim>\<open>processGeoJson\<close>
  fails at the dispatch, with the KeyError of the table lookup for that text, and the
  object table is the one the features before it left.
\<close>

theorem unknown_geometry_type_KeyError:
  assumes "getitem coll (JStr ''features'') = Inr (JArr (pre @ f # post))"
    and "processGeoJson str (JObj [(''features'', JArr pre)]) dl dc d = (Inr rs, d1)"
    and "dl = JNull \<or> dl = JStr n"
    and "getitem f (JStr ''properties'') = Inr (JObj ps)"
    and "getitem f (JStr ''geometry'') = Inr g"
    and "getitem g (JStr ''type'') = Inr (JStr t)"
    and "getitem g (JStr ''coordinates'') = Inr c"
    and "t \<notin> fst ` set geoJsonGeometryMap"
  shows "\<exists>d2. processGeoJson str coll dl dc d = (Inl (KeyError (JStr t)), d2)
           \<and> Objects d2 = Objects d1"
proof -
  from set_layer_ok [OF assms(3)] obtain att0 d2 where
    sl: "set_layer dl dc new_attributes d1 = (Inr att0, d2)" and o: "Objects d2 = Objects d1"
    by blast
  from copy_properties_obj [OF assms(4)] obtain att where
    cp: "copy_properties str f att0 = Inr att" by blast
  from assms(8) have "map_of geoJsonGeometryMap t = None"
    by (simp add: map_of_eq_None_iff)
  then have "table_getitem geoJsonGeometryMap (JStr t) = Inl (KeyError (JStr t))" by simp
  with process_feature_dispatch [OF sl cp assms(5,6,7)]
  have "process_feature str dl dc f d1 = (Inl (KeyError (JStr t)), d2)" by simp
  from processGeoJson_fails_at [OF assms(1,2) this] o show ?thesis by blast
qed

theorem unknown_geometry_type_KeyError_witness:
  "getitem (JObj [(''type'', JStr ''FeatureCollection''),
                  (''features'', JArr [myGeoJson_point,
                                       JObj [(''geometry'', JObj [(''type'', JStr ''Circle''),
                                                                (''coordinates'', JArr [JFloat 1, JFloat 2])]),
                                             (''properties'', JObj [(''prop0'', JStr ''value0'')])]])])
      (JStr ''features'')
     = Inr (JArr ([myGeoJson_point]
                  @ JObj [(''geometry'', JObj [(''type'', JStr ''Circle''),
                                               (''coordinates'', JArr [JFloat 1, JFloat 2])]),
                          (''properties'', JObj [(''prop0'', JStr ''value0'')])] # []))
   \<and> fst (processGeoJson (\<lambda>v. []) (JObj [(''features'', JArr [myGeoJson_point])])
           JNull Black \<lparr>Layers = [], Objects = []\<rparr>) = Inr [Guid 0]
   \<and> ''Circle'' \<notin> fst ` set geoJsonGeometryMap
   \<and> fst (processGeoJson (\<lambda>v. [])
           (JObj [(''type'', JStr ''FeatureCollection''),
                  (''features'', JArr [myGeoJson_point,
                                       JObj [(''geometry'', JObj [(''type'', JStr ''Circle''),
                                                                (''coordinates'', JArr [JFloat 1, JFloat 2])]),
                                             (''properties'', JObj [(''prop0'', JStr ''value0'')])]])])
           JNull Black \<lparr>Layers = [], Objects = []\<rparr>) = Inl (KeyError (JStr ''Circle''))"
  (is "?h1 \<and> ?h2 \<and> ?h8 \<and> ?c")
proof -
  have h1: ?h1 by simp
  have h2: ?h2 by code_simp
  then have h2': "processGeoJson (\<lambda>v. []) (JObj [(''features'', JArr [myGeoJson_point])])
           JNull Black \<lparr>Layers = [], Objects = []\<rparr>
        = (Inr [Guid 0], snd (processGeoJson (\<lambda>v. []) (JObj [(''features'', JArr [myGeoJson_point])])
           JNull Black \<lparr>Layers = [], Objects = []\<rparr>))"
    by (simp add: prod_eq_iff)
  have h3: "JNull = JNull \<or> JNull = JStr ''none''" by simp
  have h4: "getitem (JObj [(''geometry'', JObj [(''type'', JStr ''Circle''),
                                               (''coordinates'', JArr [JFloat 1, JFloat 2])]),
                          (''properties'', JObj [(''prop0'', JStr ''value0'')])]) (JStr ''properties'')
            = Inr (JObj [(''prop0'', JStr ''value0'')])" by simp
  have h5: "getitem (JObj [(''geometry'', JObj [(''type'', JStr ''Circle''),
                                               (''coordinates'', JArr [JFloat 1, JFloat 2])]),
                          (''properties'', JObj [(''prop0'', JStr ''value0'')])]) (JStr ''geometry'')
            = Inr (JObj [(''type'', JStr ''Circle''), (''coordinates'', JArr [JFloat 1, JFloat 2])])" by simp
  have h6: "getitem (JObj [(''type'', JStr ''Circle''), (''coordinates'', JArr [JFloat 1, JFloat 2])])
              (JStr ''type'') = Inr (JStr ''Circle'')" by simp
  have h7: "getitem (JObj [(''type'', JStr ''Circle''), (''coordinates'', JArr [JFloat 1, JFloat 2])])
              (JStr ''coordinates'') = Inr (JArr [JFloat 1, JFloat 2])" by simp
  have h8: ?h8 by (simp add: geoJsonGeometryMap_def)
  from unknown_geometry_type_KeyError [OF h1 h2' h3 h4 h5 h6 h7 h8]
  have ?c by auto
  with h1 h2 h8 show ?thesis by blast
qed

text \<open>
  C7 as stated fails for a feature of unknown type that lacks an entry the loop reads
  before the dispatch: without \<^verbatim>\<open>'coordinates'\<close> the failure is the KeyError of
  that entry, raised before the table is looked up, and without \<^verbatim>\<open>'properties'\<close>
  likewise.
\<close>

theorem unknown_geometry_type_counterexample:
  "''Circle'' \<notin> fst ` set geoJsonGeometryMap
   \<and> fst (processGeoJson (\<lambda>v. [])
         (JObj [(''type'', JStr ''FeatureCollection''),
                (''features'', JArr [JObj [(''type'', JStr ''Feature''),
                   (''geometry'', JObj [(''type'', JStr ''Circle''),
                                        (''center'', JArr [JFloat 1, JFloat 2]),
                                        (''radius'', JFloat 3)]),
                   (''properties'', JObj [])]])])
         JNull Black \<lparr>Layers = [], Objects = []\<rparr>) = Inl (KeyError (JStr ''coordinates''))
   \<and> KeyError (JStr ''coordinates'') \<noteq> KeyError (JStr ''Circle'')
   \<and> fst (processGeoJson (\<lambda>v. [])
         (JObj [(''type'', JStr ''FeatureCollection''),
                (''features'', JArr [JObj [(''type'', JStr ''Feature''),
                   (''geometry'', JObj [(''type'', JStr ''Circle''),
                                        (''coordinates'', JArr [JFloat 1, JFloat 2])])]])])
         JNull Black \<lparr>Layers = [], Objects = []\<rparr>) = Inl (KeyError (JStr ''properties''))"
  by (simp add: geoJsonGeometryMap_def processGeoJson_def process_feature_def
      copy_properties_def set_layer_def new_attributes_def try_cmd_def try_val_def try_pure_def)

text \<open>
  C3 (as amended). A feature with a properties mapping and a geometry of type
  \<^verbatim>\<open>'GeometryCollection'\<close>: when the features before it were processed without
  failure, \<^verbatim>\<open>processGeoJson\<close> fails and the object table is the one the features
  before it left. The failure is the KeyError of the missing \<^verbatim>\<open>'coordinates'\<close>
  entry when the geometry has none, and otherwise the TypeError of subscripting the
  table entry, which is a function and not a pair.
\<close>

theorem GeometryCollection_fails:
  assumes "getitem coll (JStr ''features'') = Inr (JArr (pre @ f # post))"
    and "processGeoJson str (JObj [(''features'', JArr pre)]) dl dc d = (Inr rs, d1)"
    and "dl = JNull \<or> dl = JStr n"
    and "getitem f (JStr ''properties'') = Inr (JObj ps)"
    and "getitem f (JStr ''geometry'') = Inr g"
    and "getitem g (JStr ''type'') = Inr (JStr ''GeometryCollection'')"
  shows "\<exists>d2. processGeoJson str coll dl dc d =
             (Inl (case getitem g (JStr ''coordinates'') of Inl e \<Rightarrow> e | Inr c \<Rightarrow> TypeError), d2)
           \<and> Objects d2 = Objects d1"
proof -
  from set_layer_ok [OF assms(3)] obtain att0 d2 where
    sl: "set_layer dl dc new_attributes d1 = (Inr att0, d2)" and o: "Objects d2 = Objects d1"
    by blast
  from copy_properties_obj [OF assms(4)] obtain att where
    cp: "copy_properties str f att0 = Inr att" by blast
  have "process_feature str dl dc f d1 =
      (Inl (case getitem g (JStr ''coordinates'') of Inl e \<Rightarrow> e | Inr c \<Rightarrow> TypeError), d2)"
  proof (cases "getitem g (JStr ''coordinates'')")
    case (Inl e)
    with sl cp assms(5,6) show ?thesis
      by (simp add: process_feature_def try_cmd_def try_val_def)
  next
    case (Inr c)
    from process_feature_dispatch [OF sl cp assms(5,6) Inr] Inr show ?thesis
      by (simp add: table_GeometryCollection)
  qed
  from processGeoJson_fails_at [OF assms(1,2) this] o show ?thesis by blast
qed

theorem GeometryCollection_fails_witness:
  "getitem (JObj [(''type'', JStr ''FeatureCollection''),
                  (''features'', JArr [myGeoJson_point,
                                       JObj [(''geometry'', JObj [(''type'', JStr ''GeometryCollection''),
                                                                (''geometries'', JArr [])]),
                                             (''properties'', JObj [(''prop0'', JStr ''value0'')])]])])
      (JStr ''features'')
     = Inr (JArr ([myGeoJson_point]
                  @ JObj [(''geometry'', JObj [(''type'', JStr ''GeometryCollection''),
                                               (''geometries'', JArr [])]),
                          (''properties'', JObj [(''prop0'', JStr ''value0'')])] # []))
   \<and> fst (processGeoJson (\<lambda>v. []) (JObj [(''features'', JArr [myGeoJson_point])])
           (JStr ''roads'') Black \<lparr>Layers = [], Objects = []\<rparr>) = Inr [Guid 0]
   \<and> fst (processGeoJson (\<lambda>v. [])
           (JObj [(''type'', JStr ''FeatureCollection''),
                  (''features'', JArr [myGeoJson_point,
                                       JObj [(''geometry'', JObj [(''type'', JStr ''GeometryCollection''),
                                                                (''geometries'', JArr [])]),
                                             (''properties'', JObj [(''prop0'', JStr ''value0'')])]])])
           (JStr ''roads'') Black \<lparr>Layers = [], Objects = []\<rparr>) = Inl (KeyError (JStr ''coordinates''))"
  (is "?h1 \<and> ?h2 \<and> ?c")
proof -
  have h1: ?h1 by simp
  have h2: ?h2 by code_simp
  then have h2': "processGeoJson (\<lambda>v. []) (JObj [(''features'', JArr [myGeoJson_point])])
           (JStr ''roads'') Black \<lparr>Layers = [], Objects = []\<rparr>
        = (Inr [Guid 0], snd (processGeoJson (\<lambda>v. []) (JObj [(''features'', JArr [myGeoJson_point])])
           (JStr ''roads'') Black \<lparr>Layers = [], Objects = []\<rparr>))"
    by (simp add: prod_eq_iff)
  have h3: "JStr ''roads'' = JNull \<or> JStr ''roads'' = JStr ''roads''" by simp
  have h4: "getitem (JObj [(''geometry'', JObj [(''type'', JStr ''GeometryCollection''),
                                               (''geometries'', JArr [])]),
                          (''properties'', JObj [(''prop0'', JStr ''value0'')])]) (JStr ''properties'')
            = Inr (JObj [(''prop0'', JStr ''value0'')])" by simp
  have h5: "getitem (JObj [(''geometry'', JObj [(''type'', JStr ''GeometryCollection''),
                                               (''geometries'', JArr [])]),
                          (''properties'', JObj [(''prop0'', JStr ''value0'')])]) (JStr ''geometry'')
            = Inr (JObj [(''type'', JStr ''GeometryCollection''), (''geometries'', JArr [])])" by simp
  have h6: "getitem (JObj [(''type'', JStr ''GeometryCollection''), (''geometries'', JArr [])])
              (JStr ''type'') = Inr (JStr ''GeometryCollection'')" by simp
  from GeometryCollection_fails [OF h1 h2' h3 h4 h5 h6]
  have ?c by auto
  with h1 h2 show ?thesis by blast
qed

text \<open>
  C3 as stated fails: the failure is not a signal of its own. With a
  \<^verbatim>\<open>'coordinates'\<close> entry a GeometryCollection feature fails with the TypeError
  that a Point with text coordinates gives; without one (it has \<^verbatim>\<open>'geometries'\<close>)
  it fails with the KeyError that a Point without coordinates gives.
\<close>

theorem GeometryCollection_counterexample:
  "fst (processGeoJson (\<lambda>v. [])
         (JObj [(''type'', JStr ''FeatureCollection''),
                (''features'', JArr [JObj [(''type'', JStr ''Feature''),
                   (''geometry'', JObj [(''type'', JStr ''GeometryCollection''),
                                        (''coordinates'', JArr [])]),
                   (''properties'', JObj [])]])])
         JNull Black \<lparr>Layers = [], Objects = []\<rparr>) = Inl TypeError
   \<and> fst (processGeoJson (\<lambda>v. [])
         (JObj [(''type'', JStr ''FeatureCollection''),
                (''features'', JArr [JObj [(''type'', JStr ''Feature''),
                   (''geometry'', JObj [(''type'', JStr ''Point''),
                                        (''coordinates'', JArr [JStr ''102.0'', JStr ''0.5''])]),
                   (''properties'', JObj [])]])])
         JNull Black \<lparr>Layers = [], Objects = []\<rparr>) = Inl TypeError
   \<and> fst (processGeoJson (\<lambda>v. [])
         (JObj [(''type'', JStr ''FeatureCollection''),
                (''features'', JArr [JObj [(''type'', JStr ''Feature''),
                   (''geometry'', JObj [(''type'', JStr ''GeometryCollection''),
                                        (''geometries'', JArr [])]),
                   (''properties'', JObj [])]])])
         JNull Black \<lparr>Layers = [], Objects = []\<rparr>) = Inl (KeyError (JStr ''coordinates''))
   \<and> fst (processGeoJson (\<lambda>v. [])
         (JObj [(''type'', JStr ''FeatureCollection''),
                (''features'', JArr [JObj [(''type'', JStr ''Feature''),
                   (''geometry'', JObj [(''type'', JStr ''Point'')]),
                   (''properties'', JObj [])]])])
         JNull Black \<lparr>Layers = [], Objects = []\<rparr>) = Inl (KeyError (JStr ''coordinates''))"
  by code_simp

subsection \<open>Rings become curves, curves become objects\<close>

lemma for_append_list_all2:
  "for_append f xs acc = Inr ys \<Longrightarrow> \<exists>zs. ys = acc @ zs \<and> list_all2 (\<lambda>x z. f x = Inr z) xs zs"
proof (induction xs arbitrary: acc)
  case Nil
  then show ?case by simp
next
  case (Cons x xs)
  from Cons.prems obtain y where y: "f x = Inr y" and rest: "for_append f xs (acc @ [y]) = Inr ys"
    by (auto split: sum.splits)
  from Cons.IH [OF rest] obtain zs where "ys = (acc @ [y]) @ zs" "list_all2 (\<lambda>x z. f x = Inr z) xs zs"
    by blast
  with y show ?case by (intro exI [of _ "y # zs"]) simp
qed

lemma LineString_is_curve: "LineStringToRhinoCurve c = Inr r \<Longrightarrow> \<exists>cv. r = RhCurve cv"
  by (auto simp: LineStringToRhinoCurve_def try_pure_def split: sum.splits
      elim!: CreateControlPointCurve.elims split: if_splits)

lemma all_curves:
  "list_all2 (\<lambda>x z. LineStringToRhinoCurve x = Inr z) xs zs \<Longrightarrow>
     \<exists>cvs. zs = map RhCurve cvs \<and> length cvs = length xs"
proof (induction rule: list_all2_induct)
  case Nil
  then show ?case by simp
next
  case (Cons x xs z zs)
  from Cons.hyps(1) LineString_is_curve obtain cv where "z = RhCurve cv" by blast
  moreover from Cons.IH obtain cvs where "zs = map RhCurve cvs" "length cvs = length xs" by blast
  ultimately show ?case by (intro exI [of _ "cv # cvs"]) simp
qed

lemma Polygon_rings:
  assumes "PolygonToRhinoCurve (JArr rings) = Inr r"
  shows "\<exists>cvs. r = RhList (map RhCurve cvs) \<and> length cvs = length rings"
proof -
  from assms obtain zs where zs: "for_append LineStringToRhinoCurve rings [] = Inr zs" "r = RhList zs"
    by (auto simp: PolygonToRhinoCurve_def try_pure_def split: sum.splits)
  from for_append_list_all2 [OF zs(1)] have "list_all2 (\<lambda>x z. LineStringToRhinoCurve x = Inr z) rings zs"
    by simp
  from all_curves [OF this] zs(2) show ?thesis by auto
qed

lemma all_polygons:
  "list_all2 (\<lambda>x z. PolygonToRhinoCurve x = Inr z) (map JArr polygons) zs \<Longrightarrow>
     \<exists>cvss. zs = map (\<lambda>cvs. RhList (map RhCurve cvs)) cvss \<and> map length cvss = map length polygons"
proof (induction polygons arbitrary: zs)
  case Nil
  then show ?case by simp
next
  case (Cons rings polygons)
  from Cons.prems obtain z zs' where z: "zs = z # zs'" "PolygonToRhinoCurve (JArr rings) = Inr z"
    "list_all2 (\<lambda>x z. PolygonToRhinoCurve x = Inr z) (map JArr polygons) zs'"
    by (auto simp: list_all2_Cons1)
  from Polygon_rings [OF z(2)] obtain cvs where cvs: "z = RhList (map RhCurve cvs)" "length cvs = length rings"
    by blast
  from Cons.IH [OF z(3)] obtain cvss where
    "zs' = map (\<lambda>cvs. RhList (map RhCurve cvs)) cvss" "map length cvss = map length polygons" by blast
  with z(1) cvs show ?case by (intro exI [of _ "cvs # cvss"]) simp
qed

lemma MultiPolygon_polygons:
  assumes "MultiPolygonToRhinoCurve (JArr (map JArr polygons)) = Inr r"
  shows "\<exists>cvss. r = RhList (map (\<lambda>cvs. RhList (map RhCurve cvs)) cvss)
           \<and> map length cvss = map length polygons"
proof -
  from assms obtain zs where zs: "for_append PolygonToRhinoCurve (map JArr polygons) [] = Inr zs"
    "r = RhList zs"
    by (auto simp: MultiPolygonToRhinoCurve_def try_pure_def split: sum.splits)
  from for_append_list_all2 [OF zs(1)]
  have "list_all2 (\<lambda>x z. PolygonToRhinoCurve x = Inr z) (map JArr polygons) zs" by simp
  from all_polygons [OF this] zs(2) show ?thesis by auto
qed

lemma length_curve_objects: "length (curve_objects n cvs att) = length cvs"
  by (induction cvs arbitrary: n) auto

lemma curve_objects_append:
  "curve_objects n (xs @ ys) att = curve_objects n xs att @ curve_objects (n + length xs) ys att"
  by (induction xs arbitrary: n) auto

lemma addCurve_loop_curves:
  "for_append_cmd (\<lambda>curve. addCurve curve att) (map RhCurve cvs) acc d =
     (Inr (acc @ map (\<lambda>obj. Guid (Id obj)) (curve_objects (length (Objects d)) cvs att)),
      d\<lparr>Objects := Objects d @ curve_objects (length (Objects d)) cvs att\<rparr>)"
proof (induction cvs arbitrary: acc d)
  case Nil
  then show ?case by simp
next
  case (Cons cv cvs)
  have step: "addCurve (RhCurve cv) att d =
      (Inr (Guid (length (Objects d))),
       d\<lparr>Objects := Objects d @ [\<lparr>Id = length (Objects d), Geometry = RhCurve cv, Attributes = att\<rparr>]\<rparr>)"
    by (simp add: addCurve_def add_object_def)
  show ?case
    by (simp add: step Cons.IH)
qed

lemma addCurves_curves:
  "addCurves (RhList (map RhCurve cvs)) att d =
     (Inr (GuidList (map (\<lambda>obj. Guid (Id obj)) (curve_objects (length (Objects d)) cvs att))),
      d\<lparr>Objects := Objects d @ curve_objects (length (Objects d)) cvs att\<rparr>)"
  by (simp add: addCurves_def try_val_def try_cmd_def ret_def addCurve_loop_curves)

lemma addPolygons_loop_curves:
  "addPolygons_loop (map (\<lambda>cvs. RhList (map RhCurve cvs)) cvss) att acc d =
     (Inr (acc @ map (\<lambda>obj. Guid (Id obj)) (curve_objects (length (Objects d)) (concat cvss) att)),
      d\<lparr>Objects := Objects d @ curve_objects (length (Objects d)) (concat cvss) att\<rparr>)"
proof (induction cvss arbitrary: acc d)
  case Nil
  then show ?case by simp
next
  case (Cons cvs cvss)
  show ?case
    by (simp add: addPolygon_def addCurves_curves Cons.IH curve_objects_append length_curve_objects)
qed

lemma addPolygons_one_identifier_per_ring:
  assumes "MultiPolygonToRhinoCurve (JArr (map JArr polygons)) = Inr polygonList"
  shows "\<exists>ids d'. addPolygons polygonList att d = (Inr (GuidList (map Guid ids)), d')
     \<and> length ids = sum_list (map length polygons)
     \<and> Objects d' = Objects d @ added d d'
     \<and> map Id (added d d') = ids
     \<and> list_all (\<lambda>obj. \<exists>cv. Geometry obj = RhCurve cv) (added d d')"
proof -
  from MultiPolygon_polygons [OF assms] obtain cvss where
    pl: "polygonList = RhList (map (\<lambda>cvs. RhList (map RhCurve cvs)) cvss)"
    and len: "map length cvss = map length polygons" by blast
  let ?objs = "curve_objects (length (Objects d)) (concat cvss) att"
  let ?d' = "d\<lparr>Objects := Objects d @ ?objs\<rparr>"
  have run: "addPolygons polygonList att d = (Inr (GuidList (map Guid (map Id ?objs))), ?d')"
    by (simp add: pl addPolygons_def try_val_def try_cmd_def ret_def addPolygons_loop_curves comp_def)
  have "length (map Id ?objs) = sum_list (map length polygons)"
    using len by (simp add: length_curve_objects length_concat)
  moreover have "added d ?d' = ?objs" by (simp add: added_def)
  moreover have "list_all (\<lambda>obj. \<exists>cv. Geometry obj = RhCurve cv) (curve_objects n cvs att)" for n cvs
    by (induction cvs arbitrary: n) auto
  ultimately show ?thesis using run by (intro exI [of _ "map Id ?objs"] exI [of _ ?d']) simp
qed

subsection \<open>The attributes of the objects of a feature\<close>

lemma extends_nth:
  assumes "extends att d d' ids" and "g \<in> set ids"
  shows "length (Objects d) \<le> g \<and> g < length (Objects d') \<and> Id (Objects d' ! g) = g
     \<and> Attributes (Objects d' ! g) = att"
proof -
  let ?n = "length (Objects d)"
  from assms(1) have o: "Objects d' = Objects d @ added d d'"
    and a: "list_all (\<lambda>obj. Attributes obj = att) (added d d')"
    and i: "map Id (added d d') = ids" and u: "ids = [?n ..< length (Objects d')]"
    by (auto simp: extends_def)
  from assms(2) u have g: "?n \<le> g" "g < length (Objects d')" by auto
  from o have len: "length (Objects d') = ?n + length (added d d')" by (metis length_append)
  with g have k: "g - ?n < length (added d d')" by arith
  from o g have nth: "Objects d' ! g = added d d' ! (g - ?n)"
    by (metis nth_append not_less)
  have "Id (added d d' ! (g - ?n)) = map Id (added d d') ! (g - ?n)" using k by simp
  also have "\<dots> = [?n ..< length (Objects d')] ! (g - ?n)" using i u by simp
  also have "\<dots> = g" using g len k by simp
  finally have "Id (Objects d' ! g) = g" using nth by simp
  moreover from a k have "Attributes (added d d' ! (g - ?n)) = att"
    by (simp add: list_all_length)
  ultimately show ?thesis using g nth by simp
qed

lemma process_feature_attributes:
  assumes "process_feature str dl dc f d = (Inr res, d')"
  shows "\<exists>att. (\<forall>g\<in>set (guids res). g < length (Objects d') \<and> Id (Objects d' ! g) = g
                   \<and> Attributes (Objects d' ! g) = att)
     \<and> (\<forall>ps. getitem f (JStr ''properties'') = Inr (JObj ps) \<longrightarrow>
           (\<forall>k. UserStrings att k = map_option str (map_of ps k)))"
  using process_feature_inv [OF assms]
proof (elim disjE exE conjE)
  fix att0 d1 att g t c conv add rh
  assume a: "set_layer dl dc new_attributes d = (Inr att0, d1)"
    "copy_properties str f att0 = Inr att"
    "map_of geoJsonGeometryMap t = Some (Tuple conv add)"
    "add rh att d1 = (Inr res, d')"
  from table_add_extends [OF a(3) a(4)] obtain ids where
    e: "extends att d1 d' ids" "guids res = ids" by blast
  from set_layer_spec [OF a(1)] have u0: "UserStrings att0 = Map.empty"
    by (simp add: new_attributes_def)
  have "\<forall>k. UserStrings att k = map_option str (map_of ps k)"
    if "getitem f (JStr ''properties'') = Inr (JObj ps)" for ps
  proof
    fix k
    from copy_properties_obj [OF that, of str att0] a(2)
    have "UserStrings att k = (case map_of ps k of None \<Rightarrow> UserStrings att0 k | Some v \<Rightarrow> Some (str v))"
      by auto
    with u0 show "UserStrings att k = map_option str (map_of ps k)"
      by (simp split: option.splits)
  qed
  with extends_nth [OF e(1)] e(2) show ?thesis by blast
qed simp

lemma features_loop_each:
  "for_append_cmd (process_feature str dl dc) fs acc d = (Inr rs, d') \<Longrightarrow>
     \<exists>zs. rs = acc @ zs \<and> length zs = length fs \<and>
       (\<forall>i<length fs. \<exists>di di' more. process_feature str dl dc (fs ! i) di = (Inr (zs ! i), di')
            \<and> Objects d' = Objects di' @ more)"
proof (induction fs arbitrary: acc d)
  case Nil
  then show ?case by simp
next
  case (Cons f fs)
  from Cons.prems obtain y d1 where 1: "process_feature str dl dc f d = (Inr y, d1)"
    and 2: "for_append_cmd (process_feature str dl dc) fs (acc @ [y]) d1 = (Inr rs, d')"
    by (auto split: prod.splits sum.splits)
  from features_loop_objects [OF 2] have o: "Objects d' = Objects d1 @ added d1 d'" by simp
  from Cons.IH [OF 2] obtain zs where zs: "rs = (acc @ [y]) @ zs" "length zs = length fs"
    "\<forall>i<length fs. \<exists>di di' more. process_feature str dl dc (fs ! i) di = (Inr (zs ! i), di')
            \<and> Objects d' = Objects di' @ more" by blast
  have "\<forall>i<length (f # fs). \<exists>di di' more.
          process_feature str dl dc ((f # fs) ! i) di = (Inr ((y # zs) ! i), di')
            \<and> Objects d' = Objects di' @ more"
  proof (intro allI impI)
    fix i assume i: "i < length (f # fs)"
    show "\<exists>di di' more. process_feature str dl dc ((f # fs) ! i) di = (Inr ((y # zs) ! i), di')
            \<and> Objects d' = Objects di' @ more"
    proof (cases i)
      case 0
      with 1 o show ?thesis by auto
    next
      case (Suc j)
      with i zs(3) show ?thesis by simp
    qed
  qed
  with zs(1,2) show ?case by (intro exI [of _ "y # zs"]) simp
qed

text \<open>
  C8. When \<^verbatim>\<open>processGeoJson\<close> returns, every object created for a feature whose
  properties are a mapping carries exactly one attribute per properties entry: the
  attribute of a key is \<^verbatim>\<open>str\<close> of the value of that key, and there is no other
  attribute. In particular, when \<^verbatim>\<open>str(0.0)\<close> is the text \<^verbatim>\<open>0.0\<close>, a
  property \<^verbatim>\<open>prop1\<close> of value 0.0 gives the attribute text \<^verbatim>\<open>0.0\<close>.
\<close>

theorem properties_become_user_strings:
  assumes "processGeoJson str coll dl dc d = (Inr rs, d')"
    and "getitem coll (JStr ''features'') = Inr (JArr fs)"
    and "i < length fs"
    and "getitem (fs ! i) (JStr ''properties'') = Inr (JObj ps)"
    and "g \<in> set (guids (rs ! i))"
  shows "g < length (Objects d') \<and> Id (Objects d' ! g) = g
     \<and> (\<forall>k. UserStrings (Attributes (Objects d' ! g)) k = map_option str (map_of ps k))
     \<and> dom (UserStrings (Attributes (Objects d' ! g))) = fst ` set ps
     \<and> (map_of ps ''prop1'' = Some (JFloat 0.0) \<longrightarrow> str (JFloat 0.0) = ''0.0'' \<longrightarrow>
          UserStrings (Attributes (Objects d' ! g)) ''prop1'' = Some ''0.0'')"
proof -
  from assms(1,2) have loop: "for_append_cmd (process_feature str dl dc) fs [] d = (Inr rs, d')"
    by (simp add: processGeoJson_features)
  from features_loop_each [OF loop] assms(3) obtain di di' more where
    step: "process_feature str dl dc (fs ! i) di = (Inr (rs ! i), di')"
    and more: "Objects d' = Objects di' @ more" by auto
  from process_feature_attributes [OF step] assms(4,5) obtain att where
    att: "g < length (Objects di')" "Id (Objects di' ! g) = g" "Attributes (Objects di' ! g) = att"
      "\<forall>k. UserStrings att k = map_option str (map_of ps k)" by blast
  from more att(1) have same: "Objects d' ! g = Objects di' ! g" by (simp add: nth_append)
  from more att(1) have lt: "g < length (Objects d')" by simp
  have us: "\<forall>k. UserStrings (Attributes (Objects d' ! g)) k = map_option str (map_of ps k)"
    using att(3,4) same by simp
  have "dom (UserStrings (Attributes (Objects d' ! g))) = dom (map_of ps)"
    using us by (auto simp: dom_def)
  then have "dom (UserStrings (Attributes (Objects d' ! g))) = fst ` set ps"
    by (simp add: dom_map_of_conv_image_fst)
  with lt att(2) same us show ?thesis by simp
qed


theorem properties_become_user_strings_witness:
  "fst (processGeoJson
          (\<lambda>v. case v of JStr s \<Rightarrow> s | JFloat r \<Rightarrow> (if r = 0 then ''0.0'' else []) | _ \<Rightarrow> [])
          myGeoJson JNull Black \<lparr>Layers = [], Objects = []\<rparr>)
     = Inr [Guid 0, Guid 1, GuidList [Guid 2]]
   \<and> getitem ([myGeoJson_point, myGeoJson_line, myGeoJson_polygon] ! 1) (JStr ''properties'')
     = Inr (JObj [(''prop0'', JStr ''value0''), (''prop1'', JFloat 0.0)])
   \<and> UserStrings (Attributes (Objects (snd (processGeoJson
          (\<lambda>v. case v of JStr s \<Rightarrow> s | JFloat r \<Rightarrow> (if r = 0 then ''0.0'' else []) | _ \<Rightarrow> [])
          myGeoJson JNull Black \<lparr>Layers = [], Objects = []\<rparr>)) ! 1)) ''prop1'' = Some ''0.0''
   \<and> UserStrings (Attributes (Objects (snd (processGeoJson
          (\<lambda>v. case v of JStr s \<Rightarrow> s | JFloat r \<Rightarrow> (if r = 0 then ''0.0'' else []) | _ \<Rightarrow> [])
          myGeoJson JNull Black \<lparr>Layers = [], Objects = []\<rparr>)) ! 1)) ''prop0'' = Some ''value0''"
  (is "?h1 \<and> ?h4 \<and> ?c1 \<and> ?c0")
proof -
  let ?str = "\<lambda>v. case v of JStr s \<Rightarrow> s | JFloat r \<Rightarrow> (if r = 0 then ''0.0'' else []) | _ \<Rightarrow> []"
  let ?d' = "snd (processGeoJson ?str myGeoJson JNull Black \<lparr>Layers = [], Objects = []\<rparr>)"
  have h1: ?h1 by code_simp
  then have h1': "processGeoJson ?str myGeoJson JNull Black \<lparr>Layers = [], Objects = []\<rparr>
      = (Inr [Guid 0, Guid 1, GuidList [Guid 2]], ?d')"
    by (simp add: prod_eq_iff)
  have h2: "getitem myGeoJson (JStr ''features'')
      = Inr (JArr [myGeoJson_point, myGeoJson_line, myGeoJson_polygon])"
    by (simp add: myGeoJson_def)
  have h3: "(1::nat) < length [myGeoJson_point, myGeoJson_line, myGeoJson_polygon]" by simp
  have h4: ?h4 by (simp add: myGeoJson_line_def)
  have h5: "(1::nat) \<in> set (guids ([Guid 0, Guid 1, GuidList [Guid 2]] ! 1))" by simp
  from properties_become_user_strings [OF h1' h2 h3 h4 h5]
  have "\<forall>k. UserStrings (Attributes (Objects ?d' ! 1)) k
      = map_option ?str (map_of [(''prop0'', JStr ''value0''), (''prop1'', JFloat 0.0)] k)"
    by blast
  then have ?c1 ?c0 by simp_all
  with h1 h4 show ?thesis by blast
qed

text \<open>
  C10. A feature whose properties are the empty mapping and whose geometry the table
  converts: the properties block returns the attributes it was given, without error;
  the feature is processed as the add operation of its geometry on attributes that have
  at most the layer index set, so a collection of this one feature gives the one entry
  that operation returns; and no object added for the feature has a user string.
\<close>

theorem empty_properties_skipped:
  assumes "getitem f (JStr ''properties'') = Inr (JObj [])"
    and "getitem f (JStr ''geometry'') = Inr g"
    and "getitem g (JStr ''type'') = Inr (JStr t)"
    and "getitem g (JStr ''coordinates'') = Inr c"
    and "map_of geoJsonGeometryMap t = Some (Tuple conv add)"
    and "conv c = Inr rh"
  shows "copy_properties str f att = Inr att
     \<and> process_feature str dl dc f d = try_cmd (set_layer dl dc new_attributes) (add rh) d
     \<and> processGeoJson str (JObj [(''features'', JArr [f])]) dl dc d =
         (case try_cmd (set_layer dl dc new_attributes) (add rh) d of
            (Inl e, d') \<Rightarrow> (Inl e, d')
          | (Inr r, d') \<Rightarrow> (Inr [r], d'))
     \<and> list_all (\<lambda>obj. UserStrings (Attributes obj) = Map.empty)
         (added d (snd (process_feature str dl dc f d)))"
proof -
  have cp: "copy_properties str f a = Inr a" for a
    using assms(1) by (simp add: copy_properties_def try_pure_def)
  obtain r0 d1 where sl: "set_layer dl dc new_attributes d = (r0, d1)"
    by (cases "set_layer dl dc new_attributes d")
  have tg: "table_getitem geoJsonGeometryMap (JStr t) = Inr (Tuple conv add)"
    using assms(5) by simp
  have pf: "process_feature str dl dc f d = try_cmd (set_layer dl dc new_attributes) (add rh) d"
  proof (cases r0)
    case (Inl e)
    with sl show ?thesis by (simp add: process_feature_def try_cmd_def)
  next
    case (Inr att0)
    from process_feature_dispatch [OF sl [unfolded Inr] cp assms(2,3,4)] tg assms(6) sl Inr
    show ?thesis by (simp add: try_cmd_def)
  qed
  have one: "processGeoJson str (JObj [(''features'', JArr [f])]) dl dc d =
         (case try_cmd (set_layer dl dc new_attributes) (add rh) d of
            (Inl e, d') \<Rightarrow> (Inl e, d')
          | (Inr r, d') \<Rightarrow> (Inr [r], d'))"
    by (simp add: processGeoJson_def try_val_def pf split: prod.splits sum.splits)
  have "list_all (\<lambda>obj. UserStrings (Attributes obj) = Map.empty)
         (added d (snd (process_feature str dl dc f d)))"
  proof (cases r0)
    case (Inl e)
    with sl set_layer_spec [OF sl] have "process_feature str dl dc f d = (Inl e, d)"
      by (simp add: pf try_cmd_def)
    then show ?thesis by (simp add: added_def)
  next
    case (Inr att0)
    obtain r d' where run: "add rh att0 d1 = (r, d')" by (cases "add rh att0 d1")
    with sl Inr have res: "process_feature str dl dc f d = (r, d')"
      by (simp add: pf try_cmd_def)
    from set_layer_spec [OF sl] Inr have o: "Objects d1 = Objects d"
      and u: "UserStrings att0 = Map.empty" by (auto simp: new_attributes_def)
    from table_add_extends [OF assms(5) run] obtain ids where "extends att0 d1 d' ids" by blast
    then have "list_all (\<lambda>obj. Attributes obj = att0) (added d1 d')" by (simp add: extends_def)
    with o u have "list_all (\<lambda>obj. UserStrings (Attributes obj) = Map.empty) (added d d')"
      by (simp add: added_def list_all_iff)
    with res show ?thesis by simp
  qed
  with cp pf one show ?thesis by blast
qed

theorem empty_properties_skipped_witness:
  "getitem (JObj [(''geometry'', JObj [(''type'', JStr ''Point''),
                                       (''coordinates'', JArr [JFloat 102, JFloat 0.5])]),
                  (''properties'', JObj [])]) (JStr ''properties'') = Inr (JObj [])
   \<and> map_of geoJsonGeometryMap ''Point'' = Some (Tuple PointToRhinoPoint addPoint)
   \<and> PointToRhinoPoint (JArr [JFloat 102, JFloat 0.5]) = Inr (RhPoint (Point3d 102 0.5 0))
   \<and> processGeoJson (\<lambda>v. [])
        (JObj [(''features'', JArr [JObj [(''geometry'', JObj [(''type'', JStr ''Point''),
                                                             (''coordinates'', JArr [JFloat 102, JFloat 0.5])]),
                                          (''properties'', JObj [])]])])
        JNull Black \<lparr>Layers = [], Objects = []\<rparr>
     = (Inr [Guid 0],
        \<lparr>Layers = [], Objects = [\<lparr>Id = 0, Geometry = RhPoint (Point3d 102 0.5 0),
                                   Attributes = \<lparr>LayerIndex = None, UserStrings = Map.empty\<rparr>\<rparr>]\<rparr>)"
  (is "?h1 \<and> ?h5 \<and> ?h6 \<and> ?c")
proof -
  have h1: ?h1 by simp
  have h2: "getitem (JObj [(''geometry'', JObj [(''type'', JStr ''Point''),
                                       (''coordinates'', JArr [JFloat 102, JFloat 0.5])]),
                  (''properties'', JObj [])]) (JStr ''geometry'')
      = Inr (JObj [(''type'', JStr ''Point''), (''coordinates'', JArr [JFloat 102, JFloat 0.5])])"
    by simp
  have h3: "getitem (JObj [(''type'', JStr ''Point''), (''coordinates'', JArr [JFloat 102, JFloat 0.5])])
      (JStr ''type'') = Inr (JStr ''Point'')" by simp
  have h4: "getitem (JObj [(''type'', JStr ''Point''), (''coordinates'', JArr [JFloat 102, JFloat 0.5])])
      (JStr ''coordinates'') = Inr (JArr [JFloat 102, JFloat 0.5])" by simp
  have h5: ?h5 by (simp add: geoJsonGeometryMap_def)
  have h6: ?h6 by (simp add: PointToRhinoPoint_def new_Point3d_def try_pure_def seq_index_def)
  from empty_properties_skipped [OF h1 h2 h3 h4 h5 h6, of "\<lambda>v. []" _ JNull Black "\<lparr>Layers = [], Objects = []\<rparr>"]
  have ?c
    by (simp add: try_cmd_def set_layer_def addPoint_def add_object_def new_attributes_def)
  with h1 h5 h6 show ?thesis by blast
qed

subsection \<open>Collections by layer\<close>

text \<open>
  What \<^verbatim>\<open>loadLayers\<close> does keep: text is decoded first, and a returned list has
  one entry per key, in order, each the result of the key's collection processed with
  the key as destination layer.
\<close>

lemma loadLayers_text:
  "loads text = Inr (JObj kvs) \<Longrightarrow>
     loadLayers loads str (JStr text) d = loadLayers loads str (JObj kvs) d"
  by (simp add: loadLayers_def try_val_def)

lemma loadLayers_one_list_per_key:
  assumes "loadLayers loads str (JObj kvs) d = (Inr rss, d')"
  shows "list_all2
           (\<lambda>kv rs. \<exists>layer di di'. getitem (JObj kvs) (JStr (fst kv)) = Inr layer
                \<and> processGeoJson str layer (JStr (fst kv)) Black di = (Inr rs, di'))
           kvs rss"
proof -
  let ?f = "\<lambda>layerKey. try_val (getitem (JObj kvs) layerKey)
                           (\<lambda>layer. processGeoJson str layer layerKey Black)"
  let ?P = "\<lambda>key rs. \<exists>layer di di'. getitem (JObj kvs) key = Inr layer
                \<and> processGeoJson str layer key Black di = (Inr rs, di')"
  from assms have loop: "for_append_cmd ?f (map (\<lambda>kv. JStr (fst kv)) kvs) [] d = (Inr rss, d')"
    by (simp add: loadLayers_def try_val_def)
  have "\<exists>zs. rss = [] @ zs \<and> list_all2 ?P (map (\<lambda>kv. JStr (fst kv)) kvs) zs"
  proof (rule for_append_cmd_results [OF _ loop])
    fix x d r d'
    assume "?f x d = (Inr r, d')"
    then show "?P x r" by (auto simp: try_val_def split: sum.splits)
  qed
  then show ?thesis by (simp add: list_all2_map1)
qed

text \<open>
  C9. The layer of an outer key is only created while a feature of its collection is
  processed: a mapping with one key and a collection without features returns one empty
  list and leaves the layer table empty.
\<close>

theorem loadLayers_empty_collection_no_layer:
  "loadLayers loads str
     (JObj [(''empty'', JObj [(''type'', JStr ''FeatureCollection''), (''features'', JArr [])])])
     \<lparr>Layers = [], Objects = []\<rparr>
   = (Inr [[]], \<lparr>Layers = [], Objects = []\<rparr>)"
  by (simp add: loadLayers_def processGeoJson_def try_val_def)

subsection \<open>Well-formed features are processed without failure\<close>

lemma PointToRhinoPoint_ok:
  "is_position c \<Longrightarrow> \<exists>p. PointToRhinoPoint c = Inr (RhPoint p)"
proof (induction c rule: is_position.induct)
  case (1 x y rest)
  then obtain a b where "as_double x = Inr a" "as_double y = Inr b"
    by (cases x; cases y) auto
  then show ?case
    by (simp add: PointToRhinoPoint_def new_Point3d_def try_pure_def seq_index_def)
qed simp_all

lemma for_append_ok:
  assumes "\<forall>x\<in>set xs. \<exists>y. f x = Inr y \<and> Q y"
  shows "\<exists>ys. for_append f xs acc = Inr (acc @ ys) \<and> length ys = length xs \<and> list_all Q ys"
  using assms
proof (induction xs arbitrary: acc)
  case Nil
  then show ?case by simp
next
  case (Cons x xs)
  from Cons.prems obtain y where y: "f x = Inr y" "Q y" by auto
  from Cons.prems have "\<forall>x\<in>set xs. \<exists>y. f x = Inr y \<and> Q y" by simp
  from Cons.IH [OF this, of "acc @ [y]"] obtain ys where
    "for_append f xs (acc @ [y]) = Inr ((acc @ [y]) @ ys)" "length ys = length xs" "list_all Q ys"
    by blast
  with y show ?case by (intro exI [of _ "y # ys"]) simp
qed

lemma MultiPoint_ok:
  assumes "is_positions c"
  shows "\<exists>ps. MultiPointToRhinoPoint c = Inr (RhList ps) \<and> list_all is_point ps"
proof -
  from assms obtain xs where c: "c = JArr xs" "list_all is_position xs"
    by (cases c) auto
  then have "\<forall>x\<in>set xs. \<exists>y. PointToRhinoPoint x = Inr y \<and> is_point y"
    using PointToRhinoPoint_ok by (fastforce simp: list_all_iff)
  from for_append_ok [OF this, of "[]"] c(1) show ?thesis
    by (auto simp: MultiPointToRhinoPoint_def try_pure_def)
qed

lemma LineString_ok:
  assumes "is_positions c"
  shows "\<exists>cv. LineStringToRhinoCurve c = Inr (RhCurve cv)"
  using MultiPoint_ok [OF assms]
  by (auto simp: LineStringToRhinoCurve_def try_pure_def)

lemma is_curve_list:
  "list_all (\<lambda>r. \<exists>cv. r = RhCurve cv) rs \<Longrightarrow> \<exists>cvs. rs = map RhCurve cvs"
proof (induction rs)
  case Nil
  then show ?case by simp
next
  case (Cons r rs)
  then obtain cv cvs where "r = RhCurve cv" "rs = map RhCurve cvs" by auto
  then show ?case by (intro exI [of _ "cv # cvs"]) simp
qed

lemma rings_ok:
  assumes "is_rings c"
  shows "\<exists>cvs. for_append LineStringToRhinoCurve (case c of JArr rs \<Rightarrow> rs | _ \<Rightarrow> []) [] = Inr (map RhCurve cvs)
     \<and> (\<exists>rs. c = JArr rs)"
proof -
  from assms obtain rs where c: "c = JArr rs" "list_all is_positions rs"
    by (cases c) auto
  then have "\<forall>x\<in>set rs. \<exists>y. LineStringToRhinoCurve x = Inr y \<and> (\<exists>cv. y = RhCurve cv)"
    using LineString_ok by (fastforce simp: list_all_iff)
  from for_append_ok [OF this, of "[]"] obtain ys where
    "for_append LineStringToRhinoCurve rs [] = Inr ys" "list_all (\<lambda>r. \<exists>cv. r = RhCurve cv) ys"
    by auto
  with is_curve_list [of ys] c(1) show ?thesis by auto
qed

lemma MultiLineString_ok:
  "is_rings c \<Longrightarrow> \<exists>cvs. MultiLineStringToRhinoCurve c = Inr (RhList (map RhCurve cvs))"
  using rings_ok [of c] by (auto simp: MultiLineStringToRhinoCurve_def try_pure_def)

lemma Polygon_ok:
  "is_rings c \<Longrightarrow> \<exists>cvs. PolygonToRhinoCurve c = Inr (RhList (map RhCurve cvs))"
  using rings_ok [of c] by (auto simp: PolygonToRhinoCurve_def try_pure_def)

lemma is_polygon_list:
  "list_all (\<lambda>r. \<exists>cvs. r = RhList (map RhCurve cvs)) rs \<Longrightarrow>
     \<exists>cvss. rs = map (\<lambda>cvs. RhList (map RhCurve cvs)) cvss"
proof (induction rs)
  case Nil
  then show ?case by simp
next
  case (Cons r rs)
  then obtain cvs cvss where "r = RhList (map RhCurve cvs)"
    "rs = map (\<lambda>cvs. RhList (map RhCurve cvs)) cvss" by auto
  then show ?case by (intro exI [of _ "cvs # cvss"]) simp
qed

lemma MultiPolygon_ok:
  assumes "is_polygons c"
  shows "\<exists>cvss. MultiPolygonToRhinoCurve c = Inr (RhList (map (\<lambda>cvs. RhList (map RhCurve cvs)) cvss))"
proof -
  from assms obtain ps where c: "c = JArr ps" "list_all is_rings ps"
    by (cases c) auto
  then have "\<forall>x\<in>set ps. \<exists>y. PolygonToRhinoCurve x = Inr y \<and> (\<exists>cvs. y = RhList (map RhCurve cvs))"
    using Polygon_ok by (fastforce simp: list_all_iff)
  from for_append_ok [OF this, of "[]"] obtain ys where
    "for_append PolygonToRhinoCurve ps [] = Inr ys"
    "list_all (\<lambda>r. \<exists>cvs. r = RhList (map RhCurve cvs)) ys"
    by auto
  with is_polygon_list [of ys] c(1) show ?thesis
    by (auto simp: MultiPolygonToRhinoCurve_def try_pure_def)
qed

lemma addPolygons_curves:
  "addPolygons (RhList (map (\<lambda>cvs. RhList (map RhCurve cvs)) cvss)) att d =
     (Inr (GuidList (map (\<lambda>obj. Guid (Id obj)) (curve_objects (length (Objects d)) (concat cvss) att))),
      d\<lparr>Objects := Objects d @ curve_objects (length (Objects d)) (concat cvss) att\<rparr>)"
  by (simp add: addPolygons_def try_val_def try_cmd_def ret_def addPolygons_loop_curves)

text \<open>The table converts well-formed coordinates, and its add operation takes what it converted.\<close>

lemma table_entries:
  "map_of geoJsonGeometryMap ''Point'' = Some (Tuple PointToRhinoPoint addPoint)"
  "map_of geoJsonGeometryMap ''MultiPoint'' = Some (Tuple MultiPointToRhinoPoint addPoints)"
  "map_of geoJsonGeometryMap ''LineString'' = Some (Tuple LineStringToRhinoCurve addCurve)"
  "map_of geoJsonGeometryMap ''MultiLineString'' = Some (Tuple MultiLineStringToRhinoCurve addCurves)"
  "map_of geoJsonGeometryMap ''Polygon'' = Some (Tuple PolygonToRhinoCurve addPolygon)"
  "map_of geoJsonGeometryMap ''MultiPolygon'' = Some (Tuple MultiPolygonToRhinoCurve addPolygons)"
  by (simp_all add: geoJsonGeometryMap_def)

lemma table_okI:
  assumes "map_of geoJsonGeometryMap t = Some (Tuple conv add)" and "conv c = Inr rh"
    and "\<And>att d. \<exists>res d'. add rh att d = (Inr res, d')"
  shows "\<exists>conv add rh. map_of geoJsonGeometryMap t = Some (Tuple conv add) \<and> conv c = Inr rh
     \<and> (\<forall>att d. \<exists>res d'. add rh att d = (Inr res, d'))"
  using assms by blast

lemma table_ok:
  assumes "valid_coordinates t c"
  shows "\<exists>conv add rh. map_of geoJsonGeometryMap t = Some (Tuple conv add) \<and> conv c = Inr rh
     \<and> (\<forall>att d. \<exists>res d'. add rh att d = (Inr res, d'))"
proof -
  consider (point) "t = ''Point''"
    | (multipoint) "t = ''MultiPoint''"
    | (linestring) "t = ''LineString''"
    | (multilinestring) "t = ''MultiLineString''"
    | (polygon) "t = ''Polygon''"
    | (multipolygon) "t = ''MultiPolygon''"
    using assms unfolding valid_coordinates_def by meson
  then show ?thesis
  proof cases
    case point
    with assms have "is_position c" by (simp add: valid_coordinates_def)
    from PointToRhinoPoint_ok [OF this] obtain p where p: "PointToRhinoPoint c = Inr (RhPoint p)"
      by blast
    show ?thesis unfolding point
      by (rule table_okI [OF table_entries(1) p]) (simp add: addPoint_def split: prod.splits)
  next
    case multipoint
    with assms have "is_positions c" by (simp add: valid_coordinates_def)
    from MultiPoint_ok [OF this] obtain ps where
      ps: "MultiPointToRhinoPoint c = Inr (RhList ps)" "list_all is_point ps" by blast
    show ?thesis unfolding multipoint
      by (rule table_okI [OF table_entries(2) ps(1)]) (simp add: addPoints_def ps(2) split: prod.splits)
  next
    case linestring
    with assms have "is_positions c" by (simp add: valid_coordinates_def)
    from LineString_ok [OF this] obtain cv where cv: "LineStringToRhinoCurve c = Inr (RhCurve cv)"
      by blast
    show ?thesis unfolding linestring
      by (rule table_okI [OF table_entries(3) cv]) (simp add: addCurve_def split: prod.splits)
  next
    case multilinestring
    with assms have "is_rings c" by (simp add: valid_coordinates_def)
    from MultiLineString_ok [OF this] obtain cvs where
      cvs: "MultiLineStringToRhinoCurve c = Inr (RhList (map RhCurve cvs))" by blast
    show ?thesis unfolding multilinestring
      by (rule table_okI [OF table_entries(4) cvs]) (simp add: addCurves_curves)
  next
    case polygon
    with assms have "is_rings c" by (simp add: valid_coordinates_def)
    from Polygon_ok [OF this] obtain cvs where
      cvs: "PolygonToRhinoCurve c = Inr (RhList (map RhCurve cvs))" by blast
    show ?thesis unfolding polygon
      by (rule table_okI [OF table_entries(5) cvs]) (simp add: addPolygon_def addCurves_curves)
  next
    case multipolygon
    with assms have "is_polygons c" by (simp add: valid_coordinates_def)
    from MultiPolygon_ok [OF this] obtain cvss where
      cvss: "MultiPolygonToRhinoCurve c = Inr (RhList (map (\<lambda>cvs. RhList (map RhCurve cvs)) cvss))"
      by blast
    show ?thesis unfolding multipolygon
      by (rule table_okI [OF table_entries(6) cvss]) (simp add: addPolygons_curves)
  qed
qed

lemma copy_properties_ok:
  assumes "getitem f (JStr ''properties'') = Inr p" and "is_properties p"
  shows "\<exists>att'. copy_properties str f att = Inr att'"
proof (cases p)
  case (JObj ps)
  with assms(1) copy_properties_obj [of f ps str att] show ?thesis by auto
qed (use assms in \<open>auto simp: copy_properties_def try_pure_def\<close>)

lemma process_feature_ok:
  assumes "valid_feature f" and "dl = JNull \<or> dl = JStr n"
  shows "\<exists>res d'. process_feature str dl dc f d = (Inr res, d')"
proof -
  from assms(1) obtain p where p: "getitem f (JStr ''properties'') = Inr p" "is_properties p"
    by (cases "getitem f (JStr ''properties'')") (auto simp: valid_feature_def)
  with assms(1) obtain g where g: "getitem f (JStr ''geometry'') = Inr g"
    by (cases "getitem f (JStr ''geometry'')") (auto simp: valid_feature_def)
  with assms(1) p obtain gt where gt: "getitem g (JStr ''type'') = Inr gt"
    by (cases "getitem g (JStr ''type'')") (auto simp: valid_feature_def)
  with assms(1) p g obtain t where t: "gt = JStr t"
    by (cases gt) (auto simp: valid_feature_def)
  with assms(1) p g gt obtain c where c: "getitem g (JStr ''coordinates'') = Inr c"
    by (cases "getitem g (JStr ''coordinates'')") (auto simp: valid_feature_def)
  with assms(1) p g gt t have vc: "valid_coordinates t c"
    by (simp add: valid_feature_def)
  note v = p g gt [unfolded t] c vc
  from set_layer_ok [OF assms(2)] obtain att0 d1 where
    sl: "set_layer dl dc new_attributes d = (Inr att0, d1)" by blast
  from copy_properties_ok [OF v(1,2)] obtain att where cp: "copy_properties str f att0 = Inr att"
    by blast
  from table_ok [OF v(6)] obtain conv add rh where
    t: "map_of geoJsonGeometryMap t = Some (Tuple conv add)" "conv c = Inr rh"
       "\<forall>att d. \<exists>res d'. add rh att d = (Inr res, d')" by blast
  from process_feature_dispatch [OF sl cp v(3,4,5)] t(1,2)
  have "process_feature str dl dc f d = add rh att d1" by simp
  with t(3) show ?thesis by simp
qed

lemma features_loop_ok:
  assumes "list_all valid_feature fs" and "dl = JNull \<or> dl = JStr n"
  shows "\<exists>rs d'. for_append_cmd (process_feature str dl dc) fs acc d = (Inr rs, d')"
  using assms(1)
proof (induction fs arbitrary: acc d)
  case Nil
  then show ?case by simp
next
  case (Cons f fs)
  from Cons.prems have "valid_feature f" "list_all valid_feature fs" by simp_all
  from process_feature_ok [OF this(1) assms(2)] obtain res d1 where
    "process_feature str dl dc f d = (Inr res, d1)" by blast
  with Cons.IH [OF \<open>list_all valid_feature fs\<close>, of "acc @ [res]" d1] show ?case by simp
qed

subsection \<open>The list that \<^verbatim>\<open>processGeoJson\<close> returns\<close>

text \<open>
  C1 (as amended). For a collection whose features are well formed and of the six
  supported kinds, \<^verbatim>\<open>processGeoJson\<close> returns a list with one entry per feature,
  in the order of the features: an identifier for a Point or a LineString, and a list
  of identifiers, itself flat, for a MultiPoint, MultiLineString, Polygon or
  MultiPolygon. The identifiers of the entries, read in order, are the identifiers of the
  objects appended to the document, in the order of their creation.
\<close>

theorem processGeoJson_entry_per_feature:
  assumes "getitem coll (JStr ''features'') = Inr (JArr fs)"
    and "list_all valid_feature fs"
    and "dl = JNull \<or> dl = JStr n"
  shows "\<exists>rs d'. processGeoJson str coll dl dc d = (Inr rs, d')
     \<and> length rs = length fs
     \<and> (\<forall>i<length fs. \<exists>t. geometry_type (fs ! i) = Inr (JStr t) \<and>
           (if t = ''Point'' \<or> t = ''LineString'' then is_guid (rs ! i)
            else t \<in> {''MultiPoint'', ''MultiLineString'', ''Polygon'', ''MultiPolygon''}
                 \<and> (\<exists>zs. rs ! i = GuidList zs \<and> flat zs)))
     \<and> Objects d' = Objects d @ added d d'
     \<and> map Id (added d d') = concat (map guids rs)"
proof -
  from features_loop_ok [OF assms(2,3)] obtain rs d' where
    "for_append_cmd (process_feature str dl dc) fs [] d = (Inr rs, d')" by blast
  with assms(1) have run: "processGeoJson str coll dl dc d = (Inr rs, d')"
    by (simp add: processGeoJson_features)
  from processGeoJson_entries [OF run assms(1)] run show ?thesis by blast
qed

theorem processGeoJson_entry_per_feature_witness:
  "getitem myGeoJson (JStr ''features'')
     = Inr (JArr [myGeoJson_point, myGeoJson_line, myGeoJson_polygon])
   \<and> list_all valid_feature [myGeoJson_point, myGeoJson_line, myGeoJson_polygon]
   \<and> fst (processGeoJson (\<lambda>v. []) myGeoJson (JStr ''roads'') Black \<lparr>Layers = [], Objects = []\<rparr>)
     = Inr [Guid 0, Guid 1, GuidList [Guid 2]]
   \<and> map Id (Objects (snd (processGeoJson (\<lambda>v. []) myGeoJson (JStr ''roads'') Black
                              \<lparr>Layers = [], Objects = []\<rparr>)))
     = [0, 1, 2]"
  (is "?h1 \<and> ?h2 \<and> ?r \<and> ?c")
proof -
  have h1: ?h1 by (simp add: myGeoJson_def)
  have h2: ?h2 by code_simp
  have h3: "JStr ''roads'' = JNull \<or> JStr ''roads'' = JStr ''roads''" by simp
  have r: ?r by code_simp
  from processGeoJson_entry_per_feature [OF h1 h2 h3, of "\<lambda>v. []" Black "\<lparr>Layers = [], Objects = []\<rparr>"]
  obtain rs d' where run: "processGeoJson (\<lambda>v. []) myGeoJson (JStr ''roads'') Black
                              \<lparr>Layers = [], Objects = []\<rparr> = (Inr rs, d')"
    and objs: "Objects d' = Objects \<lparr>Layers = [], Objects = []\<rparr> @ added \<lparr>Layers = [], Objects = []\<rparr> d'"
      "map Id (added \<lparr>Layers = [], Objects = []\<rparr> d') = concat (map guids rs)"
    by blast
  from run r have rs: "rs = [Guid 0, Guid 1, GuidList [Guid 2]]" by simp
  from objs have "map Id (Objects d') = concat (map guids rs)" by simp
  with run rs have ?c by simp
  with h1 h2 r show ?thesis by blast
qed

text \<open>
  C1 as stated fails: the returned list is not flat. A MultiLineString feature of two
  lines contributes one entry, the list of its two identifiers.
\<close>

theorem multi_geometry_nested_counterexample:
  "fst (processGeoJson (\<lambda>v. [])
         (JObj [(''type'', JStr ''FeatureCollection''),
                (''features'', JArr [JObj [(''type'', JStr ''Feature''),
                   (''geometry'', JObj [(''type'', JStr ''MultiLineString''),
                      (''coordinates'', JArr [JArr [JArr [JFloat 100, JFloat 0], JArr [JFloat 101, JFloat 1]],
                                             JArr [JArr [JFloat 102, JFloat 2], JArr [JFloat 103, JFloat 3]]])]),
                   (''properties'', JObj [])]])])
         JNull Black \<lparr>Layers = [], Objects = []\<rparr>)
     = Inr [GuidList [Guid 0, Guid 1]]
   \<and> \<not> flat [GuidList [Guid 0, Guid 1]]"
  by code_simp

subsection \<open>MultiPolygon: one identifier per ring\<close>

text \<open>
  C6. A MultiPolygon payload of polygons, each a list of rings, each ring a list of
  positions: \<^verbatim>\<open>MultiPolygonToRhinoCurve\<close> converts it, and \<^verbatim>\<open>addPolygons\<close>
  on the converted value returns a flat list with one identifier per ring, that is as
  many identifiers as the ring counts of the polygons add up to, and appends as many
  objects to the document, every one a curve.
\<close>

theorem MultiPolygon_one_identifier_per_ring:
  assumes "list_all (list_all is_positions) polygons"
  shows "\<exists>polygonList ids d'.
       MultiPolygonToRhinoCurve (JArr (map JArr polygons)) = Inr polygonList
     \<and> addPolygons polygonList att d = (Inr (GuidList (map Guid ids)), d')
     \<and> length ids = sum_list (map length polygons)
     \<and> Objects d' = Objects d @ added d d'
     \<and> map Id (added d d') = ids
     \<and> list_all (\<lambda>obj. \<exists>cv. Geometry obj = RhCurve cv) (added d d')"
proof -
  from assms have "is_polygons (JArr (map JArr polygons))"
    by (simp add: list_all_iff)
  from MultiPolygon_ok [OF this] obtain polygonList where
    conv: "MultiPolygonToRhinoCurve (JArr (map JArr polygons)) = Inr polygonList" by blast
  from addPolygons_one_identifier_per_ring [OF conv, of att d] conv show ?thesis by blast
qed

theorem MultiPolygon_one_identifier_per_ring_witness:
  "list_all (list_all is_positions)
        [[JArr [JArr [JFloat 0, JFloat 0], JArr [JFloat 4, JFloat 0], JArr [JFloat 4, JFloat 4], JArr [JFloat 0, JFloat 0]],
          JArr [JArr [JFloat 1, JFloat 1], JArr [JFloat 2, JFloat 1], JArr [JFloat 2, JFloat 2], JArr [JFloat 1, JFloat 1]]],
         [JArr [JArr [JFloat 10, JFloat 10], JArr [JFloat 11, JFloat 10], JArr [JFloat 11, JFloat 11], JArr [JFloat 10, JFloat 10]]]]
   \<and> (\<exists>polygonList ids d'.
       MultiPolygonToRhinoCurve (JArr (map JArr
        [[JArr [JArr [JFloat 0, JFloat 0], JArr [JFloat 4, JFloat 0], JArr [JFloat 4, JFloat 4], JArr [JFloat 0, JFloat 0]],
          JArr [JArr [JFloat 1, JFloat 1], JArr [JFloat 2, JFloat 1], JArr [JFloat 2, JFloat 2], JArr [JFloat 1, JFloat 1]]],
         [JArr [JArr [JFloat 10, JFloat 10], JArr [JFloat 11, JFloat 10], JArr [JFloat 11, JFloat 11], JArr [JFloat 10, JFloat 10]]]]))
         = Inr polygonList
     \<and> addPolygons polygonList new_attributes \<lparr>Layers = [], Objects = []\<rparr>
         = (Inr (GuidList (map Guid ids)), d')
     \<and> length ids = 3)"
  (is "?h \<and> ?c")
proof -
  have h: ?h by simp
  from MultiPolygon_one_identifier_per_ring [OF h, of new_attributes "\<lparr>Layers = [], Objects = []\<rparr>"]
  obtain polygonList ids d' where
    "MultiPolygonToRhinoCurve (JArr (map JArr
        [[JArr [JArr [JFloat 0, JFloat 0], JArr [JFloat 4, JFloat 0], JArr [JFloat 4, JFloat 4], JArr [JFloat 0, JFloat 0]],
          JArr [JArr [JFloat 1, JFloat 1], JArr [JFloat 2, JFloat 1], JArr [JFloat 2, JFloat 2], JArr [JFloat 1, JFloat 1]]],
         [JArr [JArr [JFloat 10, JFloat 10], JArr [JFloat 11, JFloat 10], JArr [JFloat 11, JFloat 11], JArr [JFloat 10, JFloat 10]]]]))
         = Inr polygonList"
    "addPolygons polygonList new_attributes \<lparr>Layers = [], Objects = []\<rparr>
         = (Inr (GuidList (map Guid ids)), d')"
    "length ids = sum_list (map length
        [[JArr [JArr [JFloat 0, JFloat 0], JArr [JFloat 4, JFloat 0], JArr [JFloat 4, JFloat 4], JArr [JFloat 0, JFloat 0]],
          JArr [JArr [JFloat 1, JFloat 1], JArr [JFloat 2, JFloat 1], JArr [JFloat 2, JFloat 2], JArr [JFloat 1, JFloat 1]]],
         [JArr [JArr [JFloat 10, JFloat 10], JArr [JFloat 11, JFloat 10], JArr [JFloat 11, JFloat 11], JArr [JFloat 10, JFloat 10]]]])"
    by blast
  then have ?c by (intro exI [of _ polygonList] exI [of _ ids] exI [of _ d']) simp
  with h show ?thesis by blast
qed

end
